theory Spec2Isabelle
  imports Main "HOL-Library.Word"
begin

unbundle bit_operations_syntax

section \<open>JavaScript values\<close>

text \<open>
  A JavaScript string is a sequence of UTF-16 code units.  String literals of the
  source are written \<open>js ''...''\<close>.
\<close>

type_synonym code_unit = "16 word"
type_synonym jstring = "code_unit list"

definition js :: "string \<Rightarrow> jstring" where
  "js s = map of_char s"

text \<open>
  The values that \<open>JSON.parse\<close> and \<open>response.json()\<close> hand to the program, together
  with \<open>undefined\<close> (the value of a missing property).  A number is kept as the bit
  pattern of its IEEE 754 double; no arithmetic is done on numbers anywhere in the
  program, they are only tested for truthiness and compared.
\<close>

datatype jsval =
    JUndefined
  | JNull
  | JBool bool
  | JNum "64 word"
  | JStr jstring
  | JArr "jsval list"
  | JObj "(jstring \<times> jsval) list"

definition is_zero :: "64 word \<Rightarrow> bool" where
  "is_zero d = (d = 0 \<or> d = 0x8000000000000000)"

definition is_nan :: "64 word \<Rightarrow> bool" where
  "is_nan d = (0x7FF0000000000000 < (d AND 0x7FFFFFFFFFFFFFFF))"

text \<open>Truthiness, as tested by \<open>if (v)\<close>, \<open>!v\<close> and \<open>v || w\<close>.\<close>

fun truthy :: "jsval \<Rightarrow> bool" where
  "truthy JUndefined = False"
| "truthy JNull = False"
| "truthy (JBool b) = b"
| "truthy (JNum d) = (\<not> is_zero d \<and> \<not> is_nan d)"
| "truthy (JStr s) = (s \<noteq> [])"
| "truthy (JArr _) = True"
| "truthy (JObj _) = True"

text \<open>
  Strict equality \<open>===\<close>.  Arrays and objects are compared by identity; the two
  operands of every \<open>===\<close> of the program come from different calls of \<open>JSON.parse\<close>
  (or one is a string literal), so two arrays or objects are never identical.
\<close>

fun strict_eq :: "jsval \<Rightarrow> jsval \<Rightarrow> bool" where
  "strict_eq JUndefined JUndefined = True"
| "strict_eq JNull JNull = True"
| "strict_eq (JBool a) (JBool b) = (a = b)"
| "strict_eq (JNum a) (JNum b) =
     (\<not> is_nan a \<and> \<not> is_nan b \<and> (a = b \<or> (is_zero a \<and> is_zero b)))"
| "strict_eq (JStr a) (JStr b) = (a = b)"
| "strict_eq _ _ = False"

text \<open>
  What can be thrown: an \<open>Error\<close> made by the program (\<open>new Error(message)\<close>) or by
  the platform (a \<open>TypeError\<close>, a \<open>SyntaxError\<close>, a failed \<open>fetch\<close>: all of them
  instances of \<open>Error\<close> with a message), or any other value.
\<close>

datatype exn = Error jstring | TypeError jstring | NonError jsval

text \<open>
  The functions of the platform that the program calls and that are not modelled here:
  \<open>JSON.parse\<close> (\<open>None\<close> when it throws a \<open>SyntaxError\<close>), the conversion \<open>ToString\<close>
  of a value that is not a string (used by \<open>new Error(v)\<close>),
  \<open>String.prototype.toLowerCase\<close>, and the message of the \<open>TypeError\<close> raised by
  reading a property of \<open>null\<close> or \<open>undefined\<close>.
\<close>

record platform =
  JSON_parse :: "jstring \<Rightarrow> jsval option"
  ToString :: "jsval \<Rightarrow> exn + jstring"
  toLowerCase :: "jstring \<Rightarrow> jstring"
  null_access_message :: "jstring \<Rightarrow> jstring"

text \<open>
  Reading the property \<open>k\<close> of \<open>v\<close>, for the property names the program reads
  (\<open>type\<close>, \<open>step\<close>, \<open>status\<close>, \<open>duration_ms\<close>, \<open>detail\<close>, \<open>data\<close>, \<open>exists\<close>), none of
  which is inherited from a prototype: \<open>own_property\<close> is the value read from a \<open>v\<close> that is
  neither \<open>null\<close> nor \<open>undefined\<close>, \<open>get_prop\<close> is the read itself, which throws on those
  two.
\<close>

fun own_property :: "jsval \<Rightarrow> jstring \<Rightarrow> jsval" where
  "own_property (JObj kvs) k = (case map_of kvs k of None \<Rightarrow> JUndefined | Some v \<Rightarrow> v)"
| "own_property _ k = JUndefined"

fun get_prop :: "platform \<Rightarrow> jsval \<Rightarrow> jstring \<Rightarrow> exn + jsval" where
  "get_prop pf JUndefined k = Inl (TypeError (null_access_message pf k))"
| "get_prop pf JNull k = Inl (TypeError (null_access_message pf k))"
| "get_prop pf v k = Inr (own_property v k)"

section \<open>String operations\<close>

definition startsWith :: "jstring \<Rightarrow> jstring \<Rightarrow> bool" where
  "startsWith s p = (take (length p) s = p)"

text \<open>\<open>s.slice(n)\<close> for a non-negative \<open>n\<close>.\<close>

definition slice :: "jstring \<Rightarrow> nat \<Rightarrow> jstring" where
  "slice s n = drop n s"

text \<open>The white space and line terminators that \<open>String.prototype.trim\<close> removes.\<close>

definition is_white_space :: "code_unit \<Rightarrow> bool" where
  "is_white_space c =
     (c = 0x09 \<or> c = 0x0A \<or> c = 0x0B \<or> c = 0x0C \<or> c = 0x0D \<or> c = 0x20 \<or> c = 0xA0
      \<or> c = 0x1680 \<or> (0x2000 \<le> c \<and> c \<le> 0x200A) \<or> c = 0x2028 \<or> c = 0x2029
      \<or> c = 0x202F \<or> c = 0x205F \<or> c = 0x3000 \<or> c = 0xFEFF)"

definition trim :: "jstring \<Rightarrow> jstring" where
  "trim s = rev (dropWhile is_white_space (rev (dropWhile is_white_space s)))"

text \<open>\<open>s.split(sep)\<close> for a separator of one code unit.\<close>

fun js_split :: "code_unit \<Rightarrow> jstring \<Rightarrow> jstring list" where
  "js_split sep [] = [[]]"
| "js_split sep (c # cs) =
     (if c = sep then [] # js_split sep cs
      else (case js_split sep cs of
              first # others \<Rightarrow> (c # first) # others
            | [] \<Rightarrow> [[c]]))"

text \<open>
  \<open>s.replace(/^https?:\/\//, '')\<close>: the pattern is anchored at the start, \<open>s?\<close> is
  tried greedily first and then without the \<open>s\<close>.  \<open>match_scheme\<close> is the length of
  the match.
\<close>

definition match_scheme :: "jstring \<Rightarrow> nat option" where
  "match_scheme s =
     (if startsWith s (js ''http'') then
        (if startsWith (drop 4 s) (js ''s'') \<and> startsWith (drop 5 s) (js ''://'') then Some 8
         else if startsWith (drop 4 s) (js ''://'') then Some 7
         else None)
      else None)"

definition replace_scheme :: "jstring \<Rightarrow> jstring" where
  "replace_scheme s = (case match_scheme s of Some n \<Rightarrow> drop n s | None \<Rightarrow> s)"

section \<open>The step ledger\<close>

text \<open>
  A \<open>PipelineStep\<close> as the stream parser builds it: the four fields are copied from
  the parsed message without any check.
\<close>

record PipelineStep =
  step :: jsval
  status :: jsval
  duration_ms :: jsval
  detail :: jsval

text \<open>\<open>xs.findIndex(p)\<close>, with \<open>None\<close> for \<open>-1\<close>.\<close>

fun findIndex :: "('a \<Rightarrow> bool) \<Rightarrow> 'a list \<Rightarrow> nat option" where
  "findIndex p [] = None"
| "findIndex p (x # xs) =
     (if p x then Some 0 else (case findIndex p xs of None \<Rightarrow> None | Some i \<Rightarrow> Some (Suc i)))"

text \<open>The updater that \<open>onStep\<close> passes to \<open>setSteps\<close>.\<close>

definition update_steps :: "PipelineStep list \<Rightarrow> PipelineStep \<Rightarrow> PipelineStep list" where
  "update_steps prev st =
     (case findIndex (\<lambda>s. strict_eq (step s) (step st)) prev of
        Some idx \<Rightarrow> prev[idx := st]
      | None \<Rightarrow> prev @ [st])"

text \<open>The keys of a list in the order of their first appearance.\<close>

fun first_seen :: "'a list \<Rightarrow> 'a list" where
  "first_seen [] = []"
| "first_seen (x # xs) = x # first_seen (filter (\<lambda>y. y \<noteq> x) xs)"

definition string_named :: "PipelineStep \<Rightarrow> bool" where
  "string_named r = (case step r of JStr _ \<Rightarrow> True | _ \<Rightarrow> False)"

section \<open>Decoding the byte stream\<close>

text \<open>
  \<open>new TextDecoder()\<close> is a UTF-8 decoder that replaces malformed input by U+FFFD and
  drops a leading byte order mark.  With \<open>{ stream: true }\<close> its state is kept from one
  call of \<open>decode\<close> to the next, and bytes of an unfinished character are held back.
  The loop never calls \<open>decode\<close> without \<open>stream\<close>, so what is held back when the
  stream ends is never emitted.
\<close>

record decoder =
  code_point :: nat
  bytes_seen :: nat
  bytes_needed :: nat
  lower_boundary :: "8 word"
  upper_boundary :: "8 word"
  BOM_seen :: bool

definition new_TextDecoder :: decoder where
  "new_TextDecoder =
     \<lparr>code_point = 0, bytes_seen = 0, bytes_needed = 0,
      lower_boundary = 0x80, upper_boundary = 0xBF, BOM_seen = False\<rparr>"

text \<open>A byte read while no character is unfinished.\<close>

definition utf8_lead :: "decoder \<Rightarrow> 8 word \<Rightarrow> decoder \<times> nat list" where
  "utf8_lead d b =
     (if b \<le> 0x7F then (d, [unat b])
      else if 0xC2 \<le> b \<and> b \<le> 0xDF then
        (d\<lparr>bytes_needed := 1, code_point := unat (b AND 0x1F)\<rparr>, [])
      else if 0xE0 \<le> b \<and> b \<le> 0xEF then
        (d\<lparr>lower_boundary := (if b = 0xE0 then 0xA0 else lower_boundary d),
           upper_boundary := (if b = 0xED then 0x9F else upper_boundary d),
           bytes_needed := 2, code_point := unat (b AND 0xF)\<rparr>, [])
      else if 0xF0 \<le> b \<and> b \<le> 0xF4 then
        (d\<lparr>lower_boundary := (if b = 0xF0 then 0x90 else lower_boundary d),
           upper_boundary := (if b = 0xF4 then 0x8F else upper_boundary d),
           bytes_needed := 3, code_point := unat (b AND 0x7)\<rparr>, [])
      else (d, [0xFFFD]))"

text \<open>
  One byte: the code points it completes.  A byte that cannot continue the unfinished
  character ends it with U+FFFD and is then read again as a first byte.
\<close>

definition utf8_byte :: "decoder \<Rightarrow> 8 word \<Rightarrow> decoder \<times> nat list" where
  "utf8_byte d b =
     (if bytes_needed d = 0 then utf8_lead d b
      else if \<not> (lower_boundary d \<le> b \<and> b \<le> upper_boundary d) then
        (let d0 = d\<lparr>code_point := 0, bytes_needed := 0, bytes_seen := 0,
                     lower_boundary := 0x80, upper_boundary := 0xBF\<rparr>;
             (d1, out) = utf8_lead d0 b
         in (d1, 0xFFFD # out))
      else
        (let d1 = d\<lparr>lower_boundary := 0x80, upper_boundary := 0xBF,
                     code_point := code_point d * 64 + unat (b AND 0x3F),
                     bytes_seen := bytes_seen d + 1\<rparr>
         in if bytes_seen d1 \<noteq> bytes_needed d1 then (d1, [])
            else (d1\<lparr>code_point := 0, bytes_needed := 0, bytes_seen := 0\<rparr>, [code_point d1])))"

text \<open>A code point as UTF-16 code units.\<close>

definition utf16 :: "nat \<Rightarrow> jstring" where
  "utf16 cp =
     (if cp < 0x10000 then [of_nat cp]
      else [of_nat (0xD800 + (cp - 0x10000) div 0x400), of_nat (0xDC00 + (cp - 0x10000) mod 0x400)])"

text \<open>The code points go to the output, except a byte order mark that comes first.\<close>

fun serialize :: "decoder \<Rightarrow> nat list \<Rightarrow> decoder \<times> jstring" where
  "serialize d [] = (d, [])"
| "serialize d (cp # cps) =
     (if \<not> BOM_seen d then
        (let (d1, out) = serialize (d\<lparr>BOM_seen := True\<rparr>) cps
         in (d1, (if cp = 0xFEFF then [] else utf16 cp) @ out))
      else (let (d1, out) = serialize d cps in (d1, utf16 cp @ out)))"

text \<open>\<open>decoder.decode(value, { stream: true })\<close>.\<close>

fun decode :: "decoder \<Rightarrow> 8 word list \<Rightarrow> decoder \<times> jstring" where
  "decode d [] = (d, [])"
| "decode d (b # bs) =
     (let (d1, cps) = utf8_byte d b;
          (d2, out) = serialize d1 cps;
          (d3, rest) = decode d2 bs
      in (d3, out @ rest))"

section \<open>The stream parser (\<open>analyzeUrlV2\<close>)\<close>

datatype callback = OnStep PipelineStep | OnResult jsval | OnError jsval

text \<open>
  The body of the \<open>try\<close> block for a parsed message.  Reading \<open>msg.type\<close> throws when
  \<open>msg\<close> is \<open>null\<close>; once it has not thrown, the later property reads cannot throw.
\<close>

definition dispatch :: "platform \<Rightarrow> jsval \<Rightarrow> exn + callback option" where
  "dispatch pf msg =
     (case get_prop pf msg (js ''type'') of
        Inl e \<Rightarrow> Inl e
      | Inr t \<Rightarrow>
          (if strict_eq t (JStr (js ''step'')) then
             Inr (Some (OnStep \<lparr>step = own_property msg (js ''step''),
                                status = own_property msg (js ''status''),
                                duration_ms = own_property msg (js ''duration_ms''),
                                detail = own_property msg (js ''detail'')\<rparr>))
           else if strict_eq t (JStr (js ''result'')) then
             Inr (Some (OnResult (own_property msg (js ''data''))))
           else if strict_eq t (JStr (js ''error'')) then
             Inr (Some (OnError (if truthy (own_property msg (js ''detail'')) then own_property msg (js ''detail'')
                                 else JStr (js ''Unknown pipeline error''))))
           else Inr None))"

text \<open>
  The body of the \<open>for\<close> loop for one line: the callback it invokes, if any.  Whatever
  is thrown inside the \<open>try\<close> block is caught and the line is skipped.
\<close>

definition handle_line :: "platform \<Rightarrow> jstring \<Rightarrow> callback option" where
  "handle_line pf line =
     (if \<not> startsWith line (js ''data: '') then None
      else
        (let jsonStr = trim (slice line 6)
         in if jsonStr = [] then None
            else (case JSON_parse pf jsonStr of
                    None \<Rightarrow> None
                  | Some msg \<Rightarrow>
                      (case dispatch pf msg of Inl e \<Rightarrow> None | Inr r \<Rightarrow> r))))"

fun for_lines :: "platform \<Rightarrow> jstring list \<Rightarrow> callback list" where
  "for_lines pf [] = []"
| "for_lines pf (line # lines) =
     (case handle_line pf line of
        None \<Rightarrow> for_lines pf lines
      | Some cb \<Rightarrow> cb # for_lines pf lines)"

text \<open>
  The \<open>while (true)\<close> loop, over the chunks that \<open>reader.read()\<close> delivers before it
  reports \<open>done\<close>: the callbacks invoked, in order.  \<open>lines.pop() || ''\<close> is the last
  element of \<open>lines\<close>.
\<close>

fun read_loop :: "platform \<Rightarrow> decoder \<Rightarrow> jstring \<Rightarrow> 8 word list list \<Rightarrow> callback list" where
  "read_loop pf d buffer [] = []"
| "read_loop pf d buffer (value # chunks) =
     (let (d1, txt) = decode d value;
          buffer1 = buffer @ txt;
          lines = js_split 0x0A buffer1;
          buffer2 = (if lines = [] then [] else last lines)
      in for_lines pf (butlast lines) @ read_loop pf d1 buffer2 chunks)"

text \<open>
  What \<open>fetch\<close> gives: it rejects, or it resolves to a response with a status, the
  outcome of \<open>response.json()\<close>, and a body (absent, or the chunks read from it, after
  which the stream is done or a read rejects).
\<close>

record response =
  http_status :: nat
  json_result :: "exn + jsval"
  body :: "(8 word list list \<times> exn option) option"

datatype fetch_result = Rejects exn | Resolves response

definition ok :: "response \<Rightarrow> bool" where
  "ok r = (200 \<le> http_status r \<and> http_status r \<le> 299)"

text \<open>The decimal digits of a status code, for the template literal.\<close>

function decimal :: "nat \<Rightarrow> jstring" where
  "decimal n = (if n < 10 then [of_nat (48 + n)] else decimal (n div 10) @ [of_nat (48 + n mod 10)])"
  by pat_completeness auto
termination
  by (relation "measure id") auto

declare decimal.simps [simp del]

text \<open>The message of \<open>new Error(v)\<close>.\<close>

definition Error_message :: "platform \<Rightarrow> jsval \<Rightarrow> exn + jstring" where
  "Error_message pf v = (case v of JStr s \<Rightarrow> Inr s | _ \<Rightarrow> ToString pf v)"

text \<open>
  \<open>analyzeUrlV2\<close> on the outcome of its \<open>fetch\<close>: the callbacks it invokes, in order,
  and what it throws, if anything.
\<close>

definition analyzeUrlV2 :: "platform \<Rightarrow> fetch_result \<Rightarrow> callback list \<times> exn option" where
  "analyzeUrlV2 pf f =
     (case f of
        Rejects e \<Rightarrow> ([], Some e)
      | Resolves r \<Rightarrow>
          (if \<not> ok r then
             (let error = (case json_result r of
                             Inl _ \<Rightarrow> JObj [(js ''detail'', JStr (js ''Analysis failed''))]
                           | Inr v \<Rightarrow> v)
              in case get_prop pf error (js ''detail'') of
                   Inl e \<Rightarrow> ([], Some e)
                 | Inr d \<Rightarrow>
                     (case Error_message pf
                             (if truthy d then d
                              else JStr (js ''HTTP '' @ decimal (http_status r) @ js '': Analysis failed'')) of
                        Inl e \<Rightarrow> ([], Some e)
                      | Inr m \<Rightarrow> ([], Some (Error m))))
           else
             (case body r of
                None \<Rightarrow> ([], Some (Error (js ''No response body'')))
              | Some (chunks, failure) \<Rightarrow> (read_loop pf new_TextDecoder [] chunks, failure))))"

section \<open>The duplicate lookup (\<open>checkDuplicate\<close>)\<close>

text \<open>
  \<open>encodeURIComponent\<close> throws a \<open>URIError\<close> on a string with a lone surrogate.
\<close>

definition is_lead :: "code_unit \<Rightarrow> bool" where
  "is_lead c = (0xD800 \<le> c \<and> c \<le> 0xDBFF)"

definition is_trail :: "code_unit \<Rightarrow> bool" where
  "is_trail c = (0xDC00 \<le> c \<and> c \<le> 0xDFFF)"

fun well_formed :: "jstring \<Rightarrow> bool" where
  "well_formed [] = True"
| "well_formed [c] = (\<not> is_lead c \<and> \<not> is_trail c)"
| "well_formed (c # c' # cs) =
     (if is_lead c then is_trail c' \<and> well_formed cs
      else \<not> is_trail c \<and> well_formed (c' # cs))"

text \<open>
  The network, as the program sees it: the outcome of the \<open>fetch\<close> of the duplicate
  lookup for a domain, and of the \<open>fetch\<close> of the pipeline stream for a submitted URL.
\<close>

record network =
  duplicate_fetch :: "jstring \<Rightarrow> fetch_result"
  pipeline_fetch :: "jstring \<Rightarrow> fetch_result"

text \<open>
  \<open>checkDuplicate\<close>: \<open>Inr\<close> the value its promise resolves to, \<open>Inl\<close> what it rejects
  with.  The \<open>try\<close> block covers the construction of the request and the awaited
  \<open>fetch\<close>.  It ends with \<open>return response.json()\<close>, which is not awaited: the promise
  of \<open>response.json()\<close> is returned as it is, and when it rejects, so does
  \<open>checkDuplicate\<close>.
\<close>

definition checkDuplicate :: "network \<Rightarrow> jstring \<Rightarrow> exn + jsval" where
  "checkDuplicate net domain =
     (if \<not> well_formed domain then Inr (JObj [(js ''exists'', JBool False)])
      else
        (case duplicate_fetch net domain of
           Rejects e \<Rightarrow> Inr (JObj [(js ''exists'', JBool False)])
         | Resolves r \<Rightarrow>
             (if \<not> ok r then Inr (JObj [(js ''exists'', JBool False)])
              else json_result r)))"

section \<open>The hook (\<open>useEnrichment\<close>)\<close>

text \<open>
  The six state variables of the hook.  \<open>results\<close>, \<open>error\<close> and \<open>duplicate\<close> hold
  \<open>null\<close> or a value that comes from the network; \<open>pendingUrl\<close> holds \<open>null\<close> (\<open>None\<close>)
  or a submitted string.  State updates take effect in program order.
\<close>

record hook_state =
  results :: jsval
  steps :: "PipelineStep list"
  isLoading :: bool
  error :: jsval
  duplicate :: jsval
  pendingUrl :: "jstring option"

definition initial_state :: hook_state where
  "initial_state =
     \<lparr>results = JNull, steps = [], isLoading = False, error = JNull,
      duplicate = JNull, pendingUrl = None\<rparr>"

text \<open>
  The hook together with a log of the pipeline requests issued so far: the submitted
  URL of each, and the state of the hook at the moment it is issued, that is, the state
  that the updates queued so far, applied in program order, amount to.
\<close>

record world =
  state :: hook_state
  requests :: "(jstring \<times> hook_state) list"

text \<open>The three callbacks that \<open>runPipeline\<close> passes to \<open>analyzeUrlV2\<close>.\<close>

fun invoke :: "hook_state \<Rightarrow> callback \<Rightarrow> hook_state" where
  "invoke s (OnStep st) = s\<lparr>steps := update_steps (steps s) st\<rparr>"
| "invoke s (OnResult r) = s\<lparr>results := r\<rparr>"
| "invoke s (OnError e) = s\<lparr>error := e\<rparr>"

text \<open>\<open>err instanceof Error ? err.message : 'An unknown error occurred'\<close>.\<close>

fun catch_message :: "exn \<Rightarrow> jstring" where
  "catch_message (Error m) = m"
| "catch_message (TypeError m) = m"
| "catch_message (NonError v) = js ''An unknown error occurred''"

text \<open>
  What a sequence of callbacks leaves in \<open>steps\<close>, \<open>results\<close> and \<open>error\<close>: the step
  records it delivers, in order, the payload of its last \<open>onResult\<close> and of its last
  \<open>onError\<close> (the given value when there is none).
\<close>

fun step_events :: "callback list \<Rightarrow> PipelineStep list" where
  "step_events [] = []"
| "step_events (OnStep st # cbs) = st # step_events cbs"
| "step_events (_ # cbs) = step_events cbs"

fun last_result :: "jsval \<Rightarrow> callback list \<Rightarrow> jsval" where
  "last_result r [] = r"
| "last_result r (OnResult v # cbs) = last_result v cbs"
| "last_result r (_ # cbs) = last_result r cbs"

fun last_error :: "jsval \<Rightarrow> callback list \<Rightarrow> jsval" where
  "last_error e [] = e"
| "last_error e (OnError v # cbs) = last_error v cbs"
| "last_error e (_ # cbs) = last_error e cbs"

definition runPipeline :: "platform \<Rightarrow> network \<Rightarrow> jstring \<Rightarrow> world \<Rightarrow> world" where
  "runPipeline pf net url w =
     (let s1 = (state w)\<lparr>isLoading := True, error := JNull, results := JNull,
                          steps := [], duplicate := JNull\<rparr>;
          log = requests w @ [(url, s1)];
          (callbacks, thrown) = analyzeUrlV2 pf (pipeline_fetch net url);
          s2 = foldl invoke s1 callbacks;
          s3 = (case thrown of
                  None \<Rightarrow> s2
                | Some err \<Rightarrow> s2\<lparr>error := JStr (catch_message err)\<rparr>)
      in \<lparr>state = s3\<lparr>isLoading := False\<rparr>, requests = log\<rparr>)"

text \<open>
  The lookup key of \<open>analyze\<close>:
  \<open>url.trim().replace(/^https?:\/\//, '').split('/')[0].toLowerCase()\<close>.
\<close>

definition extract_domain :: "platform \<Rightarrow> jstring \<Rightarrow> exn + jstring" where
  "extract_domain pf url =
     (case js_split 0x2F (replace_scheme (trim url)) of
        [] \<Rightarrow> Inl (TypeError (null_access_message pf (js ''toLowerCase'')))
      | first # _ \<Rightarrow> Inr (toLowerCase pf first))"

text \<open>
  The four operations.  \<open>analyze\<close> returns what it rejects with, if anything; the
  other three cannot throw.
\<close>

definition analyze :: "platform \<Rightarrow> network \<Rightarrow> jstring \<Rightarrow> world \<Rightarrow> exn option \<times> world" where
  "analyze pf net url w =
     (case extract_domain pf url of
        Inl e \<Rightarrow> (Some e, w)
      | Inr domain \<Rightarrow>
          (case checkDuplicate net domain of
             Inl e \<Rightarrow> (Some e, w)
           | Inr dupResult \<Rightarrow>
               (case get_prop pf dupResult (js ''exists'') of
                  Inl e \<Rightarrow> (Some e, w)
                | Inr exists \<Rightarrow>
                    (if truthy exists then
                       (None, w\<lparr>state := (state w)\<lparr>duplicate := dupResult, pendingUrl := Some url\<rparr>\<rparr>)
                     else (None, runPipeline pf net url w)))))"

definition confirmAnalyze :: "platform \<Rightarrow> network \<Rightarrow> world \<Rightarrow> world" where
  "confirmAnalyze pf net w =
     (case pendingUrl (state w) of
        None \<Rightarrow> w
      | Some url \<Rightarrow>
          (if url = [] then w
           else
             (let w1 = w\<lparr>state := (state w)\<lparr>duplicate := JNull\<rparr>\<rparr>;
                  w2 = runPipeline pf net url w1
              in w2\<lparr>state := (state w2)\<lparr>pendingUrl := None\<rparr>\<rparr>)))"

definition dismissDuplicate :: "world \<Rightarrow> world" where
  "dismissDuplicate w = w\<lparr>state := (state w)\<lparr>duplicate := JNull, pendingUrl := None\<rparr>\<rparr>"

definition reset :: "world \<Rightarrow> world" where
  "reset w =
     w\<lparr>state := (state w)\<lparr>results := JNull, steps := [], error := JNull,
                           duplicate := JNull, pendingUrl := None\<rparr>\<rparr>"

section \<open>The lookup key as the specification words it\<close>

text \<open>
  Strip a leading \<open>http://\<close> or \<open>https://\<close>, take what comes before the first \<open>/\<close>,
  and lowercase it.
\<close>

definition strip_leading_scheme :: "jstring \<Rightarrow> jstring" where
  "strip_leading_scheme s =
     (if startsWith s (js ''http://'') then drop 7 s
      else if startsWith s (js ''https://'') then drop 8 s
      else s)"

definition spec_domain :: "platform \<Rightarrow> jstring \<Rightarrow> jstring" where
  "spec_domain pf url = toLowerCase pf (takeWhile (\<lambda>c. c \<noteq> 0x2F) (strip_leading_scheme url))"

section \<open>A sample platform\<close>

text \<open>
  A platform for the examples: \<open>toLowerCase\<close> as it is on ASCII strings, \<open>JSON.parse\<close>
  as it is on the six texts listed and throwing elsewhere.
\<close>

definition ascii_toLowerCase :: "jstring \<Rightarrow> jstring" where
  "ascii_toLowerCase s = map (\<lambda>c. if 0x41 \<le> c \<and> c \<le> 0x5A then c + 0x20 else c) s"

definition sample_JSON_parse :: "jstring \<Rightarrow> jsval option" where
  \<open>sample_JSON_parse =
     map_of
       [(js ''null'', JNull),
        (js ''{"type":"unknown"}'', JObj [(js ''type'', JStr (js ''unknown''))]),
        (js ''{"type":"error","detail":"'' @ [0xE9] @ js ''"}'',
           JObj [(js ''type'', JStr (js ''error'')), (js ''detail'', JStr [0xE9])]),
        (js ''{"type":"step","step":"scrape","status":"running"}'',
           JObj [(js ''type'', JStr (js ''step'')), (js ''step'', JStr (js ''scrape'')),
                 (js ''status'', JStr (js ''running''))]),
        (js ''{"type":"step","step":"scrape","status":"ok","duration_ms":120}'',
           JObj [(js ''type'', JStr (js ''step'')), (js ''step'', JStr (js ''scrape'')),
                 (js ''status'', JStr (js ''ok'')), (js ''duration_ms'', JNum 0x405E000000000000)]),
        (js ''{"type":"result","data":{"domain":"x.com"}}'',
           JObj [(js ''type'', JStr (js ''result'')),
                 (js ''data'', JObj [(js ''domain'', JStr (js ''x.com''))])])]\<close>

definition sample_platform :: platform where
  "sample_platform =
     \<lparr>JSON_parse = sample_JSON_parse,
      ToString = (\<lambda>v. Inr (js ''[object Object]'')),
      toLowerCase = ascii_toLowerCase,
      null_access_message = (\<lambda>k. js ''Cannot read properties of null'')\<rparr>"

text \<open>A network on which every \<open>fetch\<close> has the given outcome.\<close>

definition constant_network :: "fetch_result \<Rightarrow> fetch_result \<Rightarrow> network" where
  "constant_network dup pipe = \<lparr>duplicate_fetch = (\<lambda>domain. dup), pipeline_fetch = (\<lambda>url. pipe)\<rparr>"

text \<open>A step record with a name and a status and no other field.\<close>

definition named_step :: "string \<Rightarrow> string \<Rightarrow> PipelineStep" where
  "named_step name st =
     \<lparr>step = JStr (js name), status = JStr (js st), duration_ms = JUndefined, detail = JUndefined\<rparr>"

text \<open>The bytes of an ASCII text.\<close>

definition utf8_bytes :: "string \<Rightarrow> 8 word list" where
  "utf8_bytes s = map of_char s"

text \<open>
  A stream in three chunks: an error event whose detail is the letter U+00E9, cut inside
  the JSON text and between the two bytes of that letter, and then the start of a line
  that never ends.
\<close>

definition sample_chunks :: "8 word list list" where
  \<open>sample_chunks =
     [utf8_bytes ''data: {"type":"error",'',
      utf8_bytes ''"detail":"'' @ [0xC3],
      [0xA9] @ utf8_bytes ''"}'' @ [0x0A] @ utf8_bytes ''data'']\<close>

text \<open>
  A response with a JSON body and no stream, the answer of the duplicate lookup for a
  shop analysed before, and the world before anything has happened.
\<close>

definition json_response :: "nat \<Rightarrow> jsval \<Rightarrow> response" where
  "json_response n v = \<lparr>http_status = n, json_result = Inr v, body = None\<rparr>"

definition shop_duplicate :: jsval where
  "shop_duplicate =
     JObj [(js ''exists'', JBool True), (js ''domain'', JStr (js ''shop.com'')),
           (js ''last_analyzed'', JStr (js ''2025-01-01''))]"

definition idle :: world where
  "idle = \<lparr>state = initial_state, requests = []\<rparr>"

text \<open>
  The world after an earlier run: a result, a failed step and an error message are
  still there, and so is the answer of a lookup.
\<close>

definition stale :: world where
  "stale =
     \<lparr>state = \<lparr>results = JObj [(js ''domain'', JStr (js ''old.com''))],
                steps = [named_step ''geo'' ''fail''], isLoading = False,
                error = JStr (js ''boom''), duplicate = shop_duplicate, pendingUrl = None\<rparr>,
      requests = []\<rparr>"

text \<open>
  A stream of three events in two chunks (a step that starts, the same step done in
  120 ms, the result), and a network on which the lookup finds nothing and the pipeline
  answers with that stream.
\<close>

definition scrape_stream :: "8 word list list" where
  \<open>scrape_stream =
     [utf8_bytes ''data: {"type":"step","step":"scrape","status":"running"}'' @ [0x0A, 0x0A],
      utf8_bytes ''data: {"type":"step","step":"scrape","status":"ok","duration_ms":120}'' @ [0x0A, 0x0A]
        @ utf8_bytes ''data: {"type":"result","data":{"domain":"x.com"}}'' @ [0x0A, 0x0A]]\<close>

definition scrape_network :: network where
  "scrape_network =
     constant_network (Resolves (json_response 200 (JObj [(js ''exists'', JBool False)])))
       (Resolves \<lparr>http_status = 200, json_result = Inl (Error []), body = Some (scrape_stream, None)\<rparr>)"

section \<open>Properties of the step ledger\<close>

lemma findIndex_None: "findIndex p xs = None \<longleftrightarrow> (\<forall>x\<in>set xs. \<not> p x)"
  by (induction xs) (auto split: option.splits)

lemma findIndex_Some:
  "findIndex p xs = Some i \<longleftrightarrow> (i < length xs \<and> p (xs ! i) \<and> (\<forall>j<i. \<not> p (xs ! j)))"
proof (induction xs arbitrary: i)
  case Nil
  then show ?case by simp
next
  case (Cons x xs)
  show ?case
  proof (cases "p x")
    case True
    then show ?thesis by (cases i) auto
  next
    case False
    show ?thesis
    proof (cases i)
      case 0
      with False show ?thesis by (auto split: option.splits)
    next
      case (Suc k)
      have "(\<forall>j<Suc k. \<not> p ((x # xs) ! j)) \<longleftrightarrow> (\<forall>j<k. \<not> p (xs ! j))"
        using False by (auto simp: less_Suc_eq_0_disj)
      with False Suc Cons.IH [of k] show ?thesis
        by (auto split: option.splits)
    qed
  qed
qed

lemma strict_eq_JStr: "strict_eq (JStr a) v \<longleftrightarrow> v = JStr a"
  by (cases v) auto

lemma string_named_eq:
  "string_named r \<Longrightarrow> strict_eq (step s) (step r) \<longleftrightarrow> step s = step r"
  by (cases "step r"; cases "step s") (auto simp: string_named_def)

lemma keys_update_steps:
  assumes "string_named ev"
  shows "map step (update_steps prev ev) =
           (if step ev \<in> set (map step prev) then map step prev else map step prev @ [step ev])"
proof (cases "findIndex (\<lambda>s. strict_eq (step s) (step ev)) prev")
  case None
  then have "\<forall>s\<in>set prev. step s \<noteq> step ev"
    using assms by (simp add: findIndex_None string_named_eq)
  with None show ?thesis by (auto simp: update_steps_def)
next
  case (Some i)
  then have i: "i < length prev" "step (prev ! i) = step ev"
    using assms by (simp_all add: findIndex_Some string_named_eq)
  then have "step ev \<in> set (map step prev)"
    by (metis length_map nth_map nth_mem)
  moreover have "map step (prev[i := ev]) = map step prev"
    using i by (simp add: map_update list_update_same_conv)
  ultimately show ?thesis using Some by (simp add: update_steps_def)
qed

lemma keys_foldl:
  "list_all string_named evs \<Longrightarrow>
   distinct (map step acc) \<Longrightarrow>
   map step (foldl update_steps acc evs) =
     map step acc @ first_seen (filter (\<lambda>k. k \<notin> set (map step acc)) (map step evs))"
proof (induction evs arbitrary: acc)
  case Nil
  then show ?case by simp
next
  case (Cons e es)
  then have e: "string_named e" and es: "list_all string_named es" by simp_all
  let ?acc' = "update_steps acc e"
  have k: "map step ?acc' = (if step e \<in> set (map step acc) then map step acc else map step acc @ [step e])"
    by (rule keys_update_steps [OF e])
  have d: "distinct (map step ?acc')" using Cons.prems(2) k by auto
  note IH = Cons.IH [OF es d]
  show ?case
  proof (cases "step e \<in> set (map step acc)")
    case True
    with IH k show ?thesis by simp
  next
    case False
    have f: "(\<lambda>k. k \<notin> set (map step acc @ [step e])) =
             (\<lambda>x. x \<notin> set (map step acc) \<and> x \<noteq> step e)"
      by auto
    have "map step (foldl update_steps acc (e # es)) =
            (map step acc @ [step e]) @
              first_seen (filter (\<lambda>k. k \<notin> set (map step acc @ [step e])) (map step es))"
      using IH k False by simp
    also have "\<dots> = map step acc @
              first_seen (filter (\<lambda>k. k \<notin> set (map step acc)) (map step (e # es)))"
      using False by (simp add: f del: set_append set_map)
    finally show ?thesis .
  qed
qed

lemma first_seen_set: "set (first_seen xs) = set xs"
  by (induction xs rule: first_seen.induct) auto

lemma first_seen_distinct: "distinct (first_seen xs)"
  by (induction xs rule: first_seen.induct) (auto simp: first_seen_set)


text \<open>
  Claim C1.  The reducer of the step ledger, for an incoming record whose step name is a
  string: when a record with an equal step name exists, the first such position \<open>i\<close> is
  replaced by the incoming record and nothing else changes; when none exists, the
  incoming record is appended at the end.  Hence the ledger reduced from the empty list
  over any sequence of string-named step events has pairwise distinct step names, in the
  order in which the names first appear in the sequence.
\<close>

theorem step_ledger_reducer:
  assumes "string_named ev" and "list_all string_named evs"
  shows "(\<forall>i. i < length prev \<and> step (prev ! i) = step ev \<and> (\<forall>j<i. step (prev ! j) \<noteq> step ev)
              \<longrightarrow> update_steps prev ev = prev[i := ev])
         \<and> ((\<forall>r\<in>set prev. step r \<noteq> step ev) \<longrightarrow> update_steps prev ev = prev @ [ev])
         \<and> distinct (map step (foldl update_steps [] evs))
         \<and> map step (foldl update_steps [] evs) = first_seen (map step evs)"
proof (intro conjI allI impI)
  fix i
  assume "i < length prev \<and> step (prev ! i) = step ev \<and> (\<forall>j<i. step (prev ! j) \<noteq> step ev)"
  then have "findIndex (\<lambda>s. strict_eq (step s) (step ev)) prev = Some i"
    using assms(1) by (simp add: findIndex_Some string_named_eq)
  then show "update_steps prev ev = prev[i := ev]"
    by (simp add: update_steps_def)
next
  assume "\<forall>r\<in>set prev. step r \<noteq> step ev"
  then have "findIndex (\<lambda>s. strict_eq (step s) (step ev)) prev = None"
    using assms(1) by (simp add: findIndex_None string_named_eq)
  then show "update_steps prev ev = prev @ [ev]"
    by (simp add: update_steps_def)
next
  have k: "map step (foldl update_steps [] evs) = first_seen (map step evs)"
    using keys_foldl [OF assms(2), of "[]"] by simp
  show "map step (foldl update_steps [] evs) = first_seen (map step evs)"
    by (rule k)
  show "distinct (map step (foldl update_steps [] evs))"
    unfolding k by (rule first_seen_distinct)
qed

theorem step_ledger_reducer_witness:
  "string_named (named_step ''scrape'' ''ok'')
   \<and> list_all string_named
        [named_step ''scrape'' ''running'', named_step ''geo'' ''running'', named_step ''scrape'' ''ok'']
   \<and> update_steps [named_step ''scrape'' ''running'', named_step ''geo'' ''running'']
        (named_step ''scrape'' ''ok'')
      = [named_step ''scrape'' ''ok'', named_step ''geo'' ''running'']
   \<and> update_steps [named_step ''scrape'' ''running''] (named_step ''geo'' ''running'')
      = [named_step ''scrape'' ''running'', named_step ''geo'' ''running'']
   \<and> map step
        (foldl update_steps []
           [named_step ''scrape'' ''running'', named_step ''geo'' ''running'', named_step ''scrape'' ''ok''])
      = [JStr (js ''scrape''), JStr (js ''geo'')]"
proof -
  let ?run = "named_step ''scrape'' ''running''"
  let ?geo = "named_step ''geo'' ''running''"
  let ?fin = "named_step ''scrape'' ''ok''"
  have h1: "string_named ?fin" and h1': "string_named ?geo"
    by (simp_all add: string_named_def named_step_def)
  have h2: "list_all string_named [?run, ?geo, ?fin]"
    by (simp add: string_named_def named_step_def)
  have ne: "step ?run \<noteq> step ?geo"
    by (simp add: named_step_def js_def)
  note a = step_ledger_reducer [OF h1 h2, of "[?run, ?geo]"]
  note b = step_ledger_reducer [OF h1' h2, of "[?run]"]
  from a have "0 < length [?run, ?geo] \<and> step ([?run, ?geo] ! 0) = step ?fin
                 \<and> (\<forall>j<0. step ([?run, ?geo] ! j) \<noteq> step ?fin)
               \<longrightarrow> update_steps [?run, ?geo] ?fin = [?run, ?geo][0 := ?fin]"
    by blast
  then have c1: "update_steps [?run, ?geo] ?fin = [?fin, ?geo]"
    by (simp add: named_step_def)
  from b have "(\<forall>r\<in>set [?run]. step r \<noteq> step ?geo) \<longrightarrow> update_steps [?run] ?geo = [?run] @ [?geo]"
    by blast
  then have c2: "update_steps [?run] ?geo = [?run, ?geo]"
    using ne by simp
  from a have "map step (foldl update_steps [] [?run, ?geo, ?fin]) = first_seen (map step [?run, ?geo, ?fin])"
    by blast
  then have c3: "map step (foldl update_steps [] [?run, ?geo, ?fin]) = [JStr (js ''scrape''), JStr (js ''geo'')]"
    by (simp add: named_step_def js_def)
  from h1 h2 c1 c2 c3 show ?thesis by blast
qed

section \<open>Properties of the read loop\<close>

lemma decode_append:
  "decode d (a @ b) = (let (d1, s) = decode d a; (d2, t) = decode d1 b in (d2, s @ t))"
  by (induction a arbitrary: d) (auto split: prod.splits)

lemma decode_concat_Cons:
  "snd (decode d (c @ cs)) = snd (decode d c) @ snd (decode (fst (decode d c)) cs)"
  by (simp add: decode_append split: prod.splits)

lemma js_split_nonempty: "js_split sep s \<noteq> []"
  by (cases s) (auto split: list.splits)

lemma js_split_append:
  "js_split sep (s @ t) =
     butlast (js_split sep s) @ js_split sep (last (js_split sep s) @ t)"
proof (induction s)
  case Nil
  then show ?case by simp
next
  case (Cons c s)
  obtain x xs where x: "js_split sep s = x # xs"
    using js_split_nonempty [of sep s] by (cases "js_split sep s") auto
  show ?case
  proof (cases "c = sep")
    case True
    with Cons x show ?thesis by simp
  next
    case False
    show ?thesis
    proof (cases xs)
      case Nil
      with Cons x False show ?thesis by simp
    next
      case (Cons y ys)
      have ne: "butlast (x # xs) @ js_split sep (last (x # xs) @ t) \<noteq> []"
        using js_split_nonempty by simp
      from Cons.IH x have "js_split sep (s @ t) = butlast (x # xs) @ js_split sep (last (x # xs) @ t)"
        by simp
      with False x Cons show ?thesis by simp
    qed
  qed
qed

lemma last_js_split_no_sep: "sep \<notin> set (last (js_split sep s))"
proof (induction s)
  case Nil
  then show ?case by simp
next
  case (Cons c s)
  obtain x xs where x: "js_split sep s = x # xs"
    using js_split_nonempty [of sep s] by (cases "js_split sep s") auto
  with Cons show ?case by (cases xs) auto
qed

lemma js_split_no_sep: "sep \<notin> set s \<Longrightarrow> js_split sep s = [s]"
  by (induction s) (auto split: list.splits)

lemma for_lines_append: "for_lines pf (a @ b) = for_lines pf a @ for_lines pf b"
  by (induction a) (auto split: option.splits)

lemma read_loop_lines:
  "0x0A \<notin> set buffer \<Longrightarrow>
   read_loop pf d buffer chunks =
     for_lines pf (butlast (js_split 0x0A (buffer @ snd (decode d (concat chunks)))))"
proof (induction chunks arbitrary: d buffer)
  case Nil
  then show ?case by (simp add: js_split_no_sep)
next
  case (Cons c cs)
  obtain d1 tx where dc: "decode d c = (d1, tx)" by (cases "decode d c")
  let ?lines = "js_split 0x0A (buffer @ tx)"
  have ne: "?lines \<noteq> []" by (rule js_split_nonempty)
  have nosep: "0x0A \<notin> set (last ?lines)" by (rule last_js_split_no_sep)
  have "read_loop pf d buffer (c # cs) =
          for_lines pf (butlast ?lines) @ read_loop pf d1 (last ?lines) cs"
    using dc ne by (simp add: Let_def)
  also have "\<dots> = for_lines pf (butlast ?lines) @
      for_lines pf (butlast (js_split 0x0A (last ?lines @ snd (decode d1 (concat cs)))))"
    using Cons.IH [OF nosep] by simp
  also have "\<dots> = for_lines pf (butlast (butlast ?lines @
      js_split 0x0A (last ?lines @ snd (decode d1 (concat cs)))))"
    using js_split_nonempty by (simp add: for_lines_append butlast_append)
  also have "\<dots> = for_lines pf (butlast (js_split 0x0A ((buffer @ tx) @ snd (decode d1 (concat cs)))))"
    by (simp only: js_split_append [symmetric])
  also have "(buffer @ tx) @ snd (decode d1 (concat cs)) = buffer @ snd (decode d (concat (c # cs)))"
    using dc by (simp add: decode_concat_Cons)
  finally show ?case .
qed

text \<open>
  Claim C2.  However the bytes of the stream are cut into chunks, the read loop invokes
  the same callbacks, in the same order, as when the whole stream arrives as one chunk;
  so does \<open>analyzeUrlV2\<close> on a response with that body.
\<close>

theorem chunking_invariance:
  "read_loop pf new_TextDecoder [] chunks = read_loop pf new_TextDecoder [] [concat chunks]
   \<and> analyzeUrlV2 pf (Resolves (r\<lparr>body := Some (chunks, failure)\<rparr>)) =
       analyzeUrlV2 pf (Resolves (r\<lparr>body := Some ([concat chunks], failure)\<rparr>))"
proof -
  have "read_loop pf new_TextDecoder [] chunks = read_loop pf new_TextDecoder [] [concat chunks]"
    by (simp only: read_loop_lines [of "[]"] set_simps empty_iff not_False_eq_True concat.simps append_Nil2)
  then show ?thesis
    by (simp add: analyzeUrlV2_def ok_def split: sum.splits)
qed

lemmas sample_eval =
  sample_chunks_def utf8_bytes_def new_TextDecoder_def utf8_byte_def utf8_lead_def utf16_def
  handle_line_def startsWith_def slice_def trim_def is_white_space_def sample_platform_def
  sample_JSON_parse_def dispatch_def js_def Let_def

theorem chunking_invariance_witness:
  "read_loop sample_platform new_TextDecoder [] sample_chunks = [OnError (JStr [0xE9])]
   \<and> read_loop sample_platform new_TextDecoder [] [concat sample_chunks] = [OnError (JStr [0xE9])]"
proof -
  have a: "read_loop sample_platform new_TextDecoder [] sample_chunks = [OnError (JStr [0xE9])]"
    by (simp add: sample_eval)
  have b: "read_loop sample_platform new_TextDecoder [] sample_chunks
             = read_loop sample_platform new_TextDecoder [] [concat sample_chunks]"
    using chunking_invariance [of sample_platform sample_chunks] by (rule conjunct1)
  from a b show ?thesis by (simp only:)
qed

section \<open>Properties of the line parser\<close>

lemma dispatch_other:
  "own_property msg (js ''type'') \<notin> {JStr (js ''step''), JStr (js ''result''), JStr (js ''error'')}
   \<Longrightarrow> (case dispatch pf msg of Inl e \<Rightarrow> None | Inr r \<Rightarrow> r) = None"
  by (cases msg; cases "own_property msg (js ''type'')") (auto simp: dispatch_def)

text \<open>
  Claim C3.  A line invokes no callback when it does not start with \<open>data: \<close>, when
  nothing is left after the prefix is removed and the rest trimmed, when \<open>JSON.parse\<close>
  throws on the rest, or when the \<open>type\<close> of the parsed message is missing or is none of
  \<open>step\<close>, \<open>result\<close>, \<open>error\<close>.  Nothing is thrown out of the loop body in these cases
  (\<open>handle_line\<close> has a value on every line), and the lines before and after such a line
  are handled as if it were not there.
\<close>

theorem ignored_lines:
  "(\<not> startsWith line (js ''data: '') \<longrightarrow> handle_line pf line = None)
   \<and> (trim (slice line 6) = [] \<longrightarrow> handle_line pf line = None)
   \<and> (JSON_parse pf (trim (slice line 6)) = None \<longrightarrow> handle_line pf line = None)
   \<and> (JSON_parse pf (trim (slice line 6)) = Some msg
        \<and> own_property msg (js ''type'') \<notin> {JStr (js ''step''), JStr (js ''result''), JStr (js ''error'')}
        \<longrightarrow> handle_line pf line = None)
   \<and> (handle_line pf line = None
        \<longrightarrow> for_lines pf (before @ line # after) = for_lines pf before @ for_lines pf after)"
proof (intro conjI impI)
  assume "JSON_parse pf (trim (slice line 6)) = Some msg
        \<and> own_property msg (js ''type'') \<notin> {JStr (js ''step''), JStr (js ''result''), JStr (js ''error'')}"
  then show "handle_line pf line = None"
    using dispatch_other [of msg pf] by (simp add: handle_line_def Let_def)
next
  assume "handle_line pf line = None"
  moreover have "for_lines pf (a @ b) = for_lines pf a @ for_lines pf b" for a b
    by (induction a) (auto split: option.splits)
  ultimately show "for_lines pf (before @ line # after) = for_lines pf before @ for_lines pf after"
    by simp
qed (simp_all add: handle_line_def Let_def)

section \<open>Properties of the hook\<close>

lemma runPipeline_requests:
  "requests (runPipeline pf net url w) =
     requests w @ [(url, (state w)\<lparr>isLoading := True, error := JNull, results := JNull,
                                     steps := [], duplicate := JNull\<rparr>)]"
  by (simp add: runPipeline_def Let_def split: prod.splits)

lemma runPipeline_isLoading: "\<not> isLoading (state (runPipeline pf net url w))"
  by (simp add: runPipeline_def Let_def split: prod.splits)

lemma invoke_frame:
  "duplicate (invoke s cb) = duplicate s \<and> isLoading (invoke s cb) = isLoading s
   \<and> pendingUrl (invoke s cb) = pendingUrl s"
  by (cases cb) simp_all

lemma foldl_invoke_frame:
  "duplicate (foldl invoke s cbs) = duplicate s \<and> isLoading (foldl invoke s cbs) = isLoading s
   \<and> pendingUrl (foldl invoke s cbs) = pendingUrl s"
  by (induction cbs arbitrary: s) (simp_all add: invoke_frame)

lemma foldl_invoke_fields:
  "results (foldl invoke s cbs) = last_result (results s) cbs
   \<and> steps (foldl invoke s cbs) = foldl update_steps (steps s) (step_events cbs)
   \<and> error (foldl invoke s cbs) = last_error (error s) cbs"
proof (induction cbs arbitrary: s)
  case Nil
  then show ?case by simp
next
  case (Cons cb cbs)
  show ?case using Cons.IH [of "invoke s cb"] by (cases cb) simp_all
qed

lemma runPipeline_state:
  "state (runPipeline pf net url w) =
     (case snd (analyzeUrlV2 pf (pipeline_fetch net url)) of
        None \<Rightarrow> foldl invoke ((state w)\<lparr>isLoading := True, error := JNull, results := JNull,
                                          steps := [], duplicate := JNull\<rparr>)
                  (fst (analyzeUrlV2 pf (pipeline_fetch net url)))
      | Some err \<Rightarrow> (foldl invoke ((state w)\<lparr>isLoading := True, error := JNull, results := JNull,
                                          steps := [], duplicate := JNull\<rparr>)
                  (fst (analyzeUrlV2 pf (pipeline_fetch net url))))\<lparr>error := JStr (catch_message err)\<rparr>)
     \<lparr>isLoading := False\<rparr>"
  by (simp add: runPipeline_def Let_def split: prod.splits option.splits)

lemma runPipeline_fields:
  "results (state (runPipeline pf net url w)) = last_result JNull (fst (analyzeUrlV2 pf (pipeline_fetch net url)))
   \<and> steps (state (runPipeline pf net url w))
       = foldl update_steps [] (step_events (fst (analyzeUrlV2 pf (pipeline_fetch net url))))
   \<and> error (state (runPipeline pf net url w))
       = (case snd (analyzeUrlV2 pf (pipeline_fetch net url)) of
            None \<Rightarrow> last_error JNull (fst (analyzeUrlV2 pf (pipeline_fetch net url)))
          | Some err \<Rightarrow> JStr (catch_message err))
   \<and> duplicate (state (runPipeline pf net url w)) = JNull
   \<and> pendingUrl (state (runPipeline pf net url w)) = pendingUrl (state w)"
  by (simp add: runPipeline_state foldl_invoke_fields foldl_invoke_frame split: option.splits)

lemma runPipeline_duplicate_cleared:
  "runPipeline pf net url (w\<lparr>state := (state w)\<lparr>duplicate := JNull\<rparr>\<rparr>) = runPipeline pf net url w"
  by (simp add: runPipeline_def Let_def split: prod.splits)

text \<open>
  Claim C7.  A run of the pipeline issues one request, at a moment when \<open>isLoading\<close> is
  true and \<open>error\<close>, \<open>results\<close>, \<open>steps\<close> and \<open>duplicate\<close> have their initial values, and
  \<open>isLoading\<close> is false when the run is over, however it ends.  The same holds of the
  request issued by \<open>analyze\<close> and of the one issued by \<open>confirmAnalyze\<close>, whenever they
  issue one.  The run goes on from the cleared state that the request sees: the callbacks
  are applied to it, so that after the run \<open>results\<close>, \<open>steps\<close> and \<open>error\<close> hold what
  the callbacks of this run (or what it threw) put there, or their initial values, and
  nothing of what they held before; \<open>duplicate\<close> is null and the pending submission is
  untouched.  A run started by \<open>analyze\<close> or by \<open>confirmAnalyze\<close> is this run.
\<close>

theorem run_lifecycle:
  "(\<exists>s. requests (runPipeline pf net url w) = requests w @ [(url, s)]
        \<and> isLoading s \<and> error s = JNull \<and> results s = JNull \<and> steps s = [] \<and> duplicate s = JNull)
   \<and> \<not> isLoading (state (runPipeline pf net url w))
   \<and> (requests (snd (analyze pf net url w)) = requests w
       \<or> (\<exists>s. requests (snd (analyze pf net url w)) = requests w @ [(url, s)]
             \<and> isLoading s \<and> error s = JNull \<and> results s = JNull \<and> steps s = [] \<and> duplicate s = JNull)
          \<and> \<not> isLoading (state (snd (analyze pf net url w))))
   \<and> (requests (confirmAnalyze pf net w) = requests w
       \<or> (\<exists>u s. pendingUrl (state w) = Some u
             \<and> requests (confirmAnalyze pf net w) = requests w @ [(u, s)]
             \<and> isLoading s \<and> error s = JNull \<and> results s = JNull \<and> steps s = [] \<and> duplicate s = JNull)
          \<and> \<not> isLoading (state (confirmAnalyze pf net w)))
   \<and> (\<exists>s. requests (runPipeline pf net url w) = requests w @ [(url, s)]
        \<and> pendingUrl s = pendingUrl (state w)
        \<and> state (runPipeline pf net url w) =
            (case snd (analyzeUrlV2 pf (pipeline_fetch net url)) of
               None \<Rightarrow> foldl invoke s (fst (analyzeUrlV2 pf (pipeline_fetch net url)))
             | Some err \<Rightarrow> (foldl invoke s (fst (analyzeUrlV2 pf (pipeline_fetch net url))))
                              \<lparr>error := JStr (catch_message err)\<rparr>)
            \<lparr>isLoading := False\<rparr>)
   \<and> results (state (runPipeline pf net url w))
       = last_result JNull (fst (analyzeUrlV2 pf (pipeline_fetch net url)))
   \<and> steps (state (runPipeline pf net url w))
       = foldl update_steps [] (step_events (fst (analyzeUrlV2 pf (pipeline_fetch net url))))
   \<and> error (state (runPipeline pf net url w))
       = (case snd (analyzeUrlV2 pf (pipeline_fetch net url)) of
            None \<Rightarrow> last_error JNull (fst (analyzeUrlV2 pf (pipeline_fetch net url)))
          | Some err \<Rightarrow> JStr (catch_message err))
   \<and> duplicate (state (runPipeline pf net url w)) = JNull
   \<and> pendingUrl (state (runPipeline pf net url w)) = pendingUrl (state w)
   \<and> (requests (snd (analyze pf net url w)) = requests w
       \<or> snd (analyze pf net url w) = runPipeline pf net url w)
   \<and> (requests (confirmAnalyze pf net w) = requests w
       \<or> (\<exists>u. pendingUrl (state w) = Some u
             \<and> requests (confirmAnalyze pf net w) = requests (runPipeline pf net u w)
             \<and> state (confirmAnalyze pf net w) = (state (runPipeline pf net u w))\<lparr>pendingUrl := None\<rparr>))"
proof (intro conjI)
  show "\<exists>s. requests (runPipeline pf net url w) = requests w @ [(url, s)]
        \<and> isLoading s \<and> error s = JNull \<and> results s = JNull \<and> steps s = [] \<and> duplicate s = JNull"
    by (simp add: runPipeline_requests)
  show "\<not> isLoading (state (runPipeline pf net url w))"
    by (rule runPipeline_isLoading)
  show "requests (snd (analyze pf net url w)) = requests w
       \<or> (\<exists>s. requests (snd (analyze pf net url w)) = requests w @ [(url, s)]
             \<and> isLoading s \<and> error s = JNull \<and> results s = JNull \<and> steps s = [] \<and> duplicate s = JNull)
          \<and> \<not> isLoading (state (snd (analyze pf net url w)))"
    by (simp add: analyze_def runPipeline_requests runPipeline_isLoading split: sum.splits)
  show "requests (confirmAnalyze pf net w) = requests w
       \<or> (\<exists>u s. pendingUrl (state w) = Some u
             \<and> requests (confirmAnalyze pf net w) = requests w @ [(u, s)]
             \<and> isLoading s \<and> error s = JNull \<and> results s = JNull \<and> steps s = [] \<and> duplicate s = JNull)
          \<and> \<not> isLoading (state (confirmAnalyze pf net w))"
    by (simp add: confirmAnalyze_def Let_def runPipeline_requests runPipeline_isLoading split: option.splits)
  show "\<exists>s. requests (runPipeline pf net url w) = requests w @ [(url, s)]
        \<and> pendingUrl s = pendingUrl (state w)
        \<and> state (runPipeline pf net url w) =
            (case snd (analyzeUrlV2 pf (pipeline_fetch net url)) of
               None \<Rightarrow> foldl invoke s (fst (analyzeUrlV2 pf (pipeline_fetch net url)))
             | Some err \<Rightarrow> (foldl invoke s (fst (analyzeUrlV2 pf (pipeline_fetch net url))))
                              \<lparr>error := JStr (catch_message err)\<rparr>)
            \<lparr>isLoading := False\<rparr>"
    by (simp add: runPipeline_requests runPipeline_state)
  show "results (state (runPipeline pf net url w))
       = last_result JNull (fst (analyzeUrlV2 pf (pipeline_fetch net url)))"
    and "steps (state (runPipeline pf net url w))
       = foldl update_steps [] (step_events (fst (analyzeUrlV2 pf (pipeline_fetch net url))))"
    and "error (state (runPipeline pf net url w))
       = (case snd (analyzeUrlV2 pf (pipeline_fetch net url)) of
            None \<Rightarrow> last_error JNull (fst (analyzeUrlV2 pf (pipeline_fetch net url)))
          | Some err \<Rightarrow> JStr (catch_message err))"
    and "duplicate (state (runPipeline pf net url w)) = JNull"
    and "pendingUrl (state (runPipeline pf net url w)) = pendingUrl (state w)"
    using runPipeline_fields [of pf net url w] by simp_all
  show "requests (snd (analyze pf net url w)) = requests w
       \<or> snd (analyze pf net url w) = runPipeline pf net url w"
    by (simp add: analyze_def split: sum.splits)
  show "requests (confirmAnalyze pf net w) = requests w
       \<or> (\<exists>u. pendingUrl (state w) = Some u
             \<and> requests (confirmAnalyze pf net w) = requests (runPipeline pf net u w)
             \<and> state (confirmAnalyze pf net w) = (state (runPipeline pf net u w))\<lparr>pendingUrl := None\<rparr>)"
    by (simp add: confirmAnalyze_def Let_def runPipeline_duplicate_cleared split: option.splits)
qed

text \<open>
  Claim C10.  When the lookup of \<open>analyze(url)\<close> reports that the domain exists,
  \<open>analyze\<close> sets \<open>duplicate\<close> and the pending submission and nothing else: \<open>results\<close>,
  \<open>steps\<close>, \<open>error\<close> and \<open>isLoading\<close> keep the values they had, and no pipeline request is
  issued.
\<close>

theorem analyze_duplicate_frame:
  assumes "extract_domain pf url = Inr d" and "checkDuplicate net d = Inr dup"
    and "get_prop pf dup (js ''exists'') = Inr e" and "truthy e"
  shows "fst (analyze pf net url w) = None
         \<and> duplicate (state (snd (analyze pf net url w))) = dup
         \<and> pendingUrl (state (snd (analyze pf net url w))) = Some url
         \<and> results (state (snd (analyze pf net url w))) = results (state w)
         \<and> steps (state (snd (analyze pf net url w))) = steps (state w)
         \<and> error (state (snd (analyze pf net url w))) = error (state w)
         \<and> isLoading (state (snd (analyze pf net url w))) = isLoading (state w)
         \<and> requests (snd (analyze pf net url w)) = requests w"
  using assms by (simp add: analyze_def)

text \<open>
  Claim C4, amended.  When the lookup of \<open>analyze(url)\<close> reports that the domain exists
  and \<open>url\<close> is not the empty string: the state exposes the lookup result, \<open>isLoading\<close> is
  unchanged and no pipeline request is made; from there \<open>dismissDuplicate()\<close> clears the
  lookup result and the pending slot without a request, while \<open>confirmAnalyze()\<close> issues
  exactly one pipeline request, for \<open>url\<close>, with the lookup result already cleared and
  the submission still pending, and ends with both cleared.  \<open>confirmAnalyze()\<close> changes
  nothing when no submission is pending or the pending one is the empty string.
\<close>

theorem duplicate_prompt:
  assumes "extract_domain pf url = Inr d" and "checkDuplicate net d = Inr dup"
    and "get_prop pf dup (js ''exists'') = Inr e" and "truthy e" and "url \<noteq> []"
  shows "fst (analyze pf net url w) = None
         \<and> duplicate (state (snd (analyze pf net url w))) = dup
         \<and> isLoading (state (snd (analyze pf net url w))) = isLoading (state w)
         \<and> requests (snd (analyze pf net url w)) = requests w
         \<and> duplicate (state (dismissDuplicate (snd (analyze pf net url w)))) = JNull
         \<and> pendingUrl (state (dismissDuplicate (snd (analyze pf net url w)))) = None
         \<and> requests (dismissDuplicate (snd (analyze pf net url w))) = requests w
         \<and> (\<exists>s. requests (confirmAnalyze pf net (snd (analyze pf net url w))) = requests w @ [(url, s)]
                \<and> duplicate s = JNull \<and> pendingUrl s = Some url)
         \<and> duplicate (state (confirmAnalyze pf net (snd (analyze pf net url w)))) = JNull
         \<and> pendingUrl (state (confirmAnalyze pf net (snd (analyze pf net url w)))) = None
         \<and> (pendingUrl (state w) = None \<or> pendingUrl (state w) = Some [] \<longrightarrow> confirmAnalyze pf net w = w)"
proof -
  have a: "analyze pf net url w =
             (None, w\<lparr>state := (state w)\<lparr>duplicate := dup, pendingUrl := Some url\<rparr>\<rparr>)"
    using assms by (simp add: analyze_def)
  have dup: "duplicate (state (runPipeline pf net u v)) = JNull" for u v
    by (simp add: runPipeline_def Let_def foldl_invoke_frame split: prod.splits option.splits)
  show ?thesis
    using assms(5)
    by (auto simp: a dismissDuplicate_def confirmAnalyze_def Let_def runPipeline_requests dup)
qed

text \<open>
  Claim C9 says that \<open>reset()\<close> clears all five observable fields in every state.  It
  does not touch \<open>isLoading\<close>: from a state in which a run is in progress, the state
  after \<open>reset()\<close> is not the initial one.
\<close>

theorem reset_counterexample:
  "state (reset \<lparr>state = initial_state\<lparr>isLoading := True\<rparr>, requests = []\<rparr>) \<noteq> initial_state
   \<and> isLoading (state (reset \<lparr>state = initial_state\<lparr>isLoading := True\<rparr>, requests = []\<rparr>))"
  by (simp add: reset_def initial_state_def)

text \<open>
  Claim C9, amended.  In every state \<open>reset()\<close> clears \<open>results\<close>, \<open>steps\<close>, \<open>error\<close>,
  \<open>duplicate\<close> and the pending submission, leaves \<open>isLoading\<close> as it is, and issues no
  request; when no run is in progress, the state after it is the initial state.
\<close>

theorem reset_clears:
  "results (state (reset w)) = JNull \<and> steps (state (reset w)) = []
   \<and> error (state (reset w)) = JNull \<and> duplicate (state (reset w)) = JNull
   \<and> pendingUrl (state (reset w)) = None
   \<and> isLoading (state (reset w)) = isLoading (state w)
   \<and> requests (reset w) = requests w
   \<and> (\<not> isLoading (state w) \<longrightarrow> state (reset w) = initial_state)"
  by (simp add: reset_def initial_state_def)

section \<open>The lookup key\<close>

lemma startsWith_append:
  "startsWith s (p @ q) \<longleftrightarrow> startsWith s p \<and> startsWith (drop (length p) s) q"
proof (cases "length p \<le> length s")
  case True
  then have "length (take (length p) s) = length p" by simp
  then show ?thesis
    unfolding startsWith_def by (simp add: take_add)
next
  case False
  then have "take (length p + length q) s \<noteq> p @ q" and "take (length p) s \<noteq> p"
    by (metis length_take length_append min.absorb1 nat_le_linear trans_le_add1 min_def not_le)+
  then show ?thesis by (simp add: startsWith_def)
qed

lemma replace_scheme_eq: "replace_scheme s = strip_leading_scheme s"
proof -
  have a: "startsWith s (js ''http://'') \<longleftrightarrow> startsWith s (js ''http'') \<and> startsWith (drop 4 s) (js ''://'')"
    using startsWith_append [of s "js ''http''" "js ''://''"] by (simp add: js_def eval_nat_numeral)
  have b: "startsWith s (js ''https://'') \<longleftrightarrow>
             startsWith s (js ''http'') \<and> startsWith (drop 4 s) (js ''s'') \<and> startsWith (drop 5 s) (js ''://'')"
    using startsWith_append [of s "js ''http''" "js ''s://''"]
      startsWith_append [of "drop 4 s" "js ''s''" "js ''://''"] by (simp add: js_def eval_nat_numeral)
  have c: "\<not> (startsWith (drop 4 s) (js ''s'') \<and> startsWith (drop 4 s) (js ''://''))"
    by (cases "drop 4 s") (auto simp: startsWith_def js_def)
  show ?thesis
    unfolding replace_scheme_def match_scheme_def strip_leading_scheme_def
    using a b c by auto
qed

lemma js_split_first:
  "js_split sep s = takeWhile (\<lambda>c. c \<noteq> sep) s # tl (js_split sep s)"
  by (induction s) (auto split: list.splits)

text \<open>
  Claim C8, amended.  The lookup key is derived from the submitted string with its
  surrounding white space removed: a leading \<open>http://\<close> or \<open>https://\<close> is stripped, what
  comes before the first \<open>/\<close> is taken, and the result is lowercased.  For
  \<open>https://Example.COM/path?x=1\<close> the key is \<open>example.com\<close>.
\<close>

theorem lookup_key:
  "extract_domain pf url = Inr (spec_domain pf (trim url))
   \<and> extract_domain sample_platform (js ''https://Example.COM/path?x=1'') = Inr (js ''example.com'')"
proof
  show g: "extract_domain pf url = Inr (spec_domain pf (trim url))" for pf url
    unfolding extract_domain_def spec_domain_def replace_scheme_eq
    by (subst js_split_first) simp
  show "extract_domain sample_platform (js ''https://Example.COM/path?x=1'') = Inr (js ''example.com'')"
    unfolding g
    by (simp add: spec_domain_def strip_leading_scheme_def startsWith_def trim_def is_white_space_def
        sample_platform_def ascii_toLowerCase_def js_def)
qed

text \<open>
  Claim C8 as it is worded leaves the trimming out: on a string that starts with a
  space, the key of the program and the key derived as the claim says differ.
\<close>

theorem lookup_key_counterexample:
  "extract_domain sample_platform (js '' https://a.com'') = Inr (js ''a.com'')
   \<and> spec_domain sample_platform (js '' https://a.com'') = js '' https:''
   \<and> extract_domain sample_platform (js '' https://a.com'')
       \<noteq> Inr (spec_domain sample_platform (js '' https://a.com''))"
  by (simp add: extract_domain_def replace_scheme_def match_scheme_def
      spec_domain_def strip_leading_scheme_def startsWith_def trim_def is_white_space_def
      sample_platform_def ascii_toLowerCase_def js_def)

section \<open>Failures of the lookup and of the pipeline request\<close>

text \<open>
  Claim C5 at a lookup whose response has status 200 and a body that is not JSON:
  \<open>checkDuplicate\<close> rejects with the error of \<open>response.json()\<close>, \<open>analyze\<close> rejects with
  it, and no pipeline request is issued.
\<close>

theorem unparseable_lookup_rejects:
  "checkDuplicate
     (constant_network
        (Resolves \<lparr>http_status = 200, json_result = Inl (Error (js ''Unexpected token'')), body = None\<rparr>)
        (Resolves \<lparr>http_status = 200, json_result = Inr JNull, body = Some ([], None)\<rparr>))
     (js ''shop.com'')
     = Inl (Error (js ''Unexpected token''))
   \<and> analyze sample_platform
     (constant_network
        (Resolves \<lparr>http_status = 200, json_result = Inl (Error (js ''Unexpected token'')), body = None\<rparr>)
        (Resolves \<lparr>http_status = 200, json_result = Inr JNull, body = Some ([], None)\<rparr>))
     (js ''https://shop.com'') idle
     = (Some (Error (js ''Unexpected token'')), idle)"
  by (simp add: analyze_def checkDuplicate_def constant_network_def ok_def
      extract_domain_def replace_scheme_def match_scheme_def startsWith_def trim_def is_white_space_def
      sample_platform_def ascii_toLowerCase_def js_def is_lead_def is_trail_def)

text \<open>
  The other cases of claim C5: when the lookup cannot be sent, is rejected, is answered
  with a failure status, or answers with a falsy \<open>exists\<close>, the pipeline is run with the
  submitted URL.
\<close>

lemma lookup_failure_runs_pipeline:
  assumes "extract_domain pf url = Inr d"
    and "\<not> well_formed d \<or> (\<exists>e. duplicate_fetch net d = Rejects e)
         \<or> (\<exists>r. duplicate_fetch net d = Resolves r \<and> \<not> ok r)
         \<or> (\<exists>r v x. duplicate_fetch net d = Resolves r \<and> json_result r = Inr v
                \<and> get_prop pf v (js ''exists'') = Inr x \<and> \<not> truthy x)"
  shows "analyze pf net url w = (None, runPipeline pf net url w)"
  using assms
  by (auto simp: analyze_def checkDuplicate_def js_def)

lemma decimal_500: "decimal 500 = js ''500''"
  by (simp add: decimal.simps js_def)

text \<open>
  Claim C6 says that without a \<open>detail\<close> the message is \<open>Analysis failed\<close>.  For a
  status 500 whose body is the JSON object \<open>{}\<close> the message is
  \<open>HTTP 500: Analysis failed\<close>; for a body that is the JSON value \<open>null\<close>, what is
  thrown is the \<open>TypeError\<close> of reading \<open>detail\<close> of \<open>null\<close>.
\<close>

theorem failed_response_counterexample:
  "analyzeUrlV2 sample_platform (Resolves (json_response 500 (JObj [])))
     = ([], Some (Error (js ''HTTP 500: Analysis failed'')))
   \<and> js ''HTTP 500: Analysis failed'' \<noteq> js ''Analysis failed''
   \<and> analyzeUrlV2 sample_platform (Resolves (json_response 500 JNull))
     = ([], Some (TypeError (js ''Cannot read properties of null'')))"
  by (simp add: analyzeUrlV2_def json_response_def ok_def Error_message_def decimal_500
        sample_platform_def)
     (simp add: js_def)

lemma runPipeline_throws:
  assumes "analyzeUrlV2 pf (pipeline_fetch net url) = ([], Some err)"
  shows "state (runPipeline pf net url w) =
           (state w)\<lparr>isLoading := False, error := JStr (catch_message err), results := JNull,
                      steps := [], duplicate := JNull\<rparr>"
  using assms by (simp add: runPipeline_def Let_def)

text \<open>
  Claim C6, amended.  When the response of the pipeline request has a failure status,
  \<open>analyzeUrlV2\<close> invokes no callback and throws an \<open>Error\<close>, and the run ends with that
  message in \<open>error\<close>, \<open>results\<close> null and \<open>isLoading\<close> false.  The message is the
  \<open>detail\<close> of the JSON body when that is a non-empty string; it is \<open>Analysis failed\<close>
  when the body is not JSON; it is \<open>HTTP <status>: Analysis failed\<close> when the body is
  JSON, not \<open>null\<close>, and has no \<open>detail\<close> or a falsy one.  For status 500 and body
  \<open>{"detail":"boom"}\<close> the message is \<open>boom\<close>.
\<close>

theorem failed_response:
  assumes "\<not> ok r" and "pipeline_fetch net url = Resolves r"
  shows "(json_result r = Inr v \<and> get_prop pf v (js ''detail'') = Inr (JStr m) \<and> m \<noteq> []
            \<longrightarrow> analyzeUrlV2 pf (Resolves r) = ([], Some (Error m))
                \<and> error (state (runPipeline pf net url w)) = JStr m
                \<and> results (state (runPipeline pf net url w)) = JNull
                \<and> \<not> isLoading (state (runPipeline pf net url w)))
         \<and> (json_result r = Inl e
            \<longrightarrow> analyzeUrlV2 pf (Resolves r) = ([], Some (Error (js ''Analysis failed'')))
                \<and> error (state (runPipeline pf net url w)) = JStr (js ''Analysis failed'')
                \<and> results (state (runPipeline pf net url w)) = JNull
                \<and> \<not> isLoading (state (runPipeline pf net url w)))
         \<and> (json_result r = Inr v \<and> get_prop pf v (js ''detail'') = Inr x \<and> \<not> truthy x
            \<longrightarrow> analyzeUrlV2 pf (Resolves r)
                  = ([], Some (Error (js ''HTTP '' @ decimal (http_status r) @ js '': Analysis failed'')))
                \<and> error (state (runPipeline pf net url w))
                  = JStr (js ''HTTP '' @ decimal (http_status r) @ js '': Analysis failed'')
                \<and> results (state (runPipeline pf net url w)) = JNull
                \<and> \<not> isLoading (state (runPipeline pf net url w)))
         \<and> (http_status r = 500 \<and> json_result r = Inr (JObj [(js ''detail'', JStr (js ''boom''))])
            \<longrightarrow> error (state (runPipeline pf net url w)) = JStr (js ''boom'')
                \<and> results (state (runPipeline pf net url w)) = JNull
                \<and> \<not> isLoading (state (runPipeline pf net url w)))"
proof (intro conjI impI)
  assume h: "json_result r = Inr v \<and> get_prop pf v (js ''detail'') = Inr (JStr m) \<and> m \<noteq> []"
  then have a: "analyzeUrlV2 pf (Resolves r) = ([], Some (Error m))"
    using assms(1) by (simp add: analyzeUrlV2_def Error_message_def)
  then show "analyzeUrlV2 pf (Resolves r) = ([], Some (Error m))" .
  from a show "error (state (runPipeline pf net url w)) = JStr m"
    and "results (state (runPipeline pf net url w)) = JNull"
    and "\<not> isLoading (state (runPipeline pf net url w))"
    using runPipeline_throws [of pf net url "Error m" w] assms(2) by simp_all
next
  assume h: "json_result r = Inl e"
  then have a: "analyzeUrlV2 pf (Resolves r) = ([], Some (Error (js ''Analysis failed'')))"
    using assms(1) by (simp add: analyzeUrlV2_def Error_message_def) (simp add: js_def)
  then show "analyzeUrlV2 pf (Resolves r) = ([], Some (Error (js ''Analysis failed'')))" .
  from a show "error (state (runPipeline pf net url w)) = JStr (js ''Analysis failed'')"
    and "results (state (runPipeline pf net url w)) = JNull"
    and "\<not> isLoading (state (runPipeline pf net url w))"
    using runPipeline_throws [of pf net url "Error (js ''Analysis failed'')" w] assms(2) by simp_all
next
  assume h: "json_result r = Inr v \<and> get_prop pf v (js ''detail'') = Inr x \<and> \<not> truthy x"
  let ?m = "js ''HTTP '' @ decimal (http_status r) @ js '': Analysis failed''"
  from h have a: "analyzeUrlV2 pf (Resolves r) = ([], Some (Error ?m))"
    using assms(1) by (simp add: analyzeUrlV2_def Error_message_def)
  then show "analyzeUrlV2 pf (Resolves r) = ([], Some (Error ?m))" .
  from a show "error (state (runPipeline pf net url w)) = JStr ?m"
    and "results (state (runPipeline pf net url w)) = JNull"
    and "\<not> isLoading (state (runPipeline pf net url w))"
    using runPipeline_throws [of pf net url "Error ?m" w] assms(2) by simp_all
next
  assume h: "http_status r = 500 \<and> json_result r = Inr (JObj [(js ''detail'', JStr (js ''boom''))])"
  then have a: "analyzeUrlV2 pf (Resolves r) = ([], Some (Error (js ''boom'')))"
    using assms(1) by (simp add: analyzeUrlV2_def Error_message_def) (simp add: js_def)
  from a show "error (state (runPipeline pf net url w)) = JStr (js ''boom'')"
    and "results (state (runPipeline pf net url w)) = JNull"
    and "\<not> isLoading (state (runPipeline pf net url w))"
    using runPipeline_throws [of pf net url "Error (js ''boom'')" w] assms(2) by simp_all
qed

section \<open>The claims on sample inputs\<close>

theorem ignored_lines_witness:
  \<open>\<not> startsWith (js ''event: ping'') (js ''data: '')
   \<and> handle_line sample_platform (js ''event: ping'') = None
   \<and> trim (slice (js ''data:   '') 6) = []
   \<and> handle_line sample_platform (js ''data:   '') = None
   \<and> JSON_parse sample_platform (trim (slice (js ''data: {not valid json}'') 6)) = None
   \<and> handle_line sample_platform (js ''data: {not valid json}'') = None
   \<and> JSON_parse sample_platform (trim (slice (js ''data: {"type":"unknown"}'') 6))
       = Some (JObj [(js ''type'', JStr (js ''unknown''))])
   \<and> handle_line sample_platform (js ''data: {"type":"unknown"}'') = None
   \<and> for_lines sample_platform
         [js ''data: null'', js ''data: {"type":"unknown"}'', js ''data: null''] = []\<close>
proof -
  have h1: \<open>\<not> startsWith (js ''event: ping'') (js ''data: '')\<close>
    by (simp add: startsWith_def js_def)
  have h2: \<open>trim (slice (js ''data:   '') 6) = []\<close>
    by (simp add: trim_def slice_def is_white_space_def js_def)
  have h3: \<open>JSON_parse sample_platform (trim (slice (js ''data: {not valid json}'') 6)) = None\<close>
    by (simp add: sample_eval)
  have h4: \<open>JSON_parse sample_platform (trim (slice (js ''data: {"type":"unknown"}'') 6))
       = Some (JObj [(js ''type'', JStr (js ''unknown''))])\<close>
    by (simp add: sample_eval)
  have h4': \<open>own_property (JObj [(js ''type'', JStr (js ''unknown''))]) (js ''type'')
       \<notin> {JStr (js ''step''), JStr (js ''result''), JStr (js ''error'')}\<close>
    by (simp add: js_def)
  have h5: \<open>JSON_parse sample_platform (trim (slice (js ''data: null'') 6)) = Some JNull\<close>
    by (simp add: sample_eval)
  have h5': \<open>own_property JNull (js ''type'')
       \<notin> {JStr (js ''step''), JStr (js ''result''), JStr (js ''error'')}\<close>
    by simp
  have c1: \<open>handle_line sample_platform (js ''event: ping'') = None\<close>
    using ignored_lines [of \<open>js ''event: ping''\<close> sample_platform] h1 by blast
  have c2: \<open>handle_line sample_platform (js ''data:   '') = None\<close>
    using ignored_lines [of \<open>js ''data:   ''\<close> sample_platform] h2 by blast
  have c3: \<open>handle_line sample_platform (js ''data: {not valid json}'') = None\<close>
    using ignored_lines [of \<open>js ''data: {not valid json}''\<close> sample_platform] h3 by blast
  have c4: \<open>handle_line sample_platform (js ''data: {"type":"unknown"}'') = None\<close>
    using ignored_lines [of \<open>js ''data: {"type":"unknown"}''\<close> sample_platform
        \<open>JObj [(js ''type'', JStr (js ''unknown''))]\<close>] h4 h4' by blast
  have c5: \<open>handle_line sample_platform (js ''data: null'') = None\<close>
    using ignored_lines [of \<open>js ''data: null''\<close> sample_platform JNull] h5 h5' by blast
  have \<open>for_lines sample_platform ([js ''data: null''] @ js ''data: {"type":"unknown"}'' # [js ''data: null''])
         = for_lines sample_platform [js ''data: null''] @ for_lines sample_platform [js ''data: null'']\<close>
    using ignored_lines [of \<open>js ''data: {"type":"unknown"}''\<close> sample_platform _
        \<open>[js ''data: null'']\<close> \<open>[js ''data: null'']\<close>] c4 by blast
  then have c6: \<open>for_lines sample_platform
         [js ''data: null'', js ''data: {"type":"unknown"}'', js ''data: null''] = []\<close>
    using c5 by simp
  from h1 h2 h3 h4 c1 c2 c3 c4 c6 show ?thesis by blast
qed

theorem reset_clears_witness:
  "\<not> isLoading (state (idle\<lparr>state := initial_state\<lparr>error := JStr (js ''boom''), duplicate := shop_duplicate,
                                                       pendingUrl := Some (js ''shop.com'')\<rparr>\<rparr>))
   \<and> state (reset (idle\<lparr>state := initial_state\<lparr>error := JStr (js ''boom''), duplicate := shop_duplicate,
                                                   pendingUrl := Some (js ''shop.com'')\<rparr>\<rparr>)) = initial_state"
  using reset_clears [of "idle\<lparr>state := initial_state\<lparr>error := JStr (js ''boom''), duplicate := shop_duplicate,
                                                   pendingUrl := Some (js ''shop.com'')\<rparr>\<rparr>"]
  by (simp add: initial_state_def)

lemma shop_lookup:
  "extract_domain sample_platform (js ''https://Shop.com/products'') = Inr (js ''shop.com'')"
  "checkDuplicate (constant_network (Resolves (json_response 200 shop_duplicate)) pipe) (js ''shop.com'')
     = Inr shop_duplicate"
  "get_prop sample_platform shop_duplicate (js ''exists'') = Inr (JBool True)"
    apply (simp add: extract_domain_def replace_scheme_def match_scheme_def startsWith_def trim_def
        is_white_space_def sample_platform_def ascii_toLowerCase_def js_def)
   apply (simp add: checkDuplicate_def constant_network_def json_response_def ok_def js_def
        is_lead_def is_trail_def)
  apply (simp add: shop_duplicate_def js_def)
  done

theorem analyze_duplicate_frame_witness:
  "extract_domain sample_platform (js ''https://Shop.com/products'') = Inr (js ''shop.com'')
   \<and> checkDuplicate (constant_network (Resolves (json_response 200 shop_duplicate)) (Rejects (NonError JNull)))
         (js ''shop.com'') = Inr shop_duplicate
   \<and> get_prop sample_platform shop_duplicate (js ''exists'') = Inr (JBool True)
   \<and> truthy (JBool True)
   \<and> state (snd (analyze sample_platform
                (constant_network (Resolves (json_response 200 shop_duplicate)) (Rejects (NonError JNull)))
                (js ''https://Shop.com/products'')
                (idle\<lparr>state := initial_state\<lparr>error := JStr (js ''boom'')\<rparr>\<rparr>)))
       = \<lparr>results = JNull, steps = [], isLoading = False, error = JStr (js ''boom''),
          duplicate = shop_duplicate, pendingUrl = Some (js ''https://Shop.com/products'')\<rparr>"
proof -
  let ?net = "constant_network (Resolves (json_response 200 shop_duplicate)) (Rejects (NonError JNull))"
  let ?w = "idle\<lparr>state := initial_state\<lparr>error := JStr (js ''boom'')\<rparr>\<rparr>"
  have t: "truthy (JBool True)" by simp
  note a = analyze_duplicate_frame [OF shop_lookup(1) shop_lookup(2) shop_lookup(3) t, of "Rejects (NonError JNull)" ?w]
  have "state (snd (analyze sample_platform ?net (js ''https://Shop.com/products'') ?w))
       = \<lparr>results = JNull, steps = [], isLoading = False, error = JStr (js ''boom''),
          duplicate = shop_duplicate, pendingUrl = Some (js ''https://Shop.com/products'')\<rparr>"
    using a by (cases "state (snd (analyze sample_platform ?net (js ''https://Shop.com/products'') ?w))")
      (simp add: idle_def initial_state_def)
  with shop_lookup t show ?thesis by blast
qed

theorem duplicate_prompt_witness:
  "extract_domain sample_platform (js ''https://Shop.com/products'') = Inr (js ''shop.com'')
   \<and> checkDuplicate (constant_network (Resolves (json_response 200 shop_duplicate)) (Rejects (NonError JNull)))
         (js ''shop.com'') = Inr shop_duplicate
   \<and> get_prop sample_platform shop_duplicate (js ''exists'') = Inr (JBool True)
   \<and> truthy (JBool True)
   \<and> js ''https://Shop.com/products'' \<noteq> []
   \<and> duplicate (state (snd (analyze sample_platform
        (constant_network (Resolves (json_response 200 shop_duplicate)) (Rejects (NonError JNull)))
        (js ''https://Shop.com/products'') idle))) = shop_duplicate
   \<and> requests (dismissDuplicate (snd (analyze sample_platform
        (constant_network (Resolves (json_response 200 shop_duplicate)) (Rejects (NonError JNull)))
        (js ''https://Shop.com/products'') idle))) = []
   \<and> map fst (requests (confirmAnalyze sample_platform
        (constant_network (Resolves (json_response 200 shop_duplicate)) (Rejects (NonError JNull)))
        (snd (analyze sample_platform
        (constant_network (Resolves (json_response 200 shop_duplicate)) (Rejects (NonError JNull)))
        (js ''https://Shop.com/products'') idle)))) = [js ''https://Shop.com/products'']
   \<and> confirmAnalyze sample_platform
        (constant_network (Resolves (json_response 200 shop_duplicate)) (Rejects (NonError JNull))) idle = idle"
proof -
  let ?net = "constant_network (Resolves (json_response 200 shop_duplicate)) (Rejects (NonError JNull))"
  let ?url = "js ''https://Shop.com/products''"
  have t: "truthy (JBool True)" by simp
  have n: "?url \<noteq> []" by (simp add: js_def)
  have p: "pendingUrl (state idle) = None \<or> pendingUrl (state idle) = Some []"
    by (simp add: idle_def initial_state_def)
  note a = duplicate_prompt [OF shop_lookup(1) shop_lookup(2) shop_lookup(3) t n, of "Rejects (NonError JNull)" idle]
  from a have 1: "duplicate (state (snd (analyze sample_platform ?net ?url idle))) = shop_duplicate"
    by blast
  from a have 2: "requests (dismissDuplicate (snd (analyze sample_platform ?net ?url idle))) = []"
    by (simp add: idle_def)
  from a obtain s where "requests (confirmAnalyze sample_platform ?net (snd (analyze sample_platform ?net ?url idle)))
       = requests idle @ [(?url, s)]" by blast
  then have 3: "map fst (requests (confirmAnalyze sample_platform ?net (snd (analyze sample_platform ?net ?url idle))))
       = [?url]" by (simp add: idle_def)
  from a p have 4: "confirmAnalyze sample_platform ?net idle = idle" by blast
  from shop_lookup t n 1 2 3 4 show ?thesis by blast
qed

text \<open>
  Claim C4 on the empty string: when the lookup for it reports that the domain exists,
  the submission is parked, but \<open>confirmAnalyze()\<close> takes the empty pending string for no
  pending submission: it issues no request and leaves the lookup result displayed.
\<close>

theorem duplicate_prompt_counterexample:
  "pendingUrl (state (snd (analyze sample_platform
        (constant_network (Resolves (json_response 200 shop_duplicate)) (Rejects (NonError JNull))) [] idle)))
     = Some []
   \<and> duplicate (state (snd (analyze sample_platform
        (constant_network (Resolves (json_response 200 shop_duplicate)) (Rejects (NonError JNull))) [] idle)))
     = shop_duplicate
   \<and> confirmAnalyze sample_platform
        (constant_network (Resolves (json_response 200 shop_duplicate)) (Rejects (NonError JNull)))
        (snd (analyze sample_platform
           (constant_network (Resolves (json_response 200 shop_duplicate)) (Rejects (NonError JNull))) [] idle))
     = snd (analyze sample_platform
           (constant_network (Resolves (json_response 200 shop_duplicate)) (Rejects (NonError JNull))) [] idle)
   \<and> requests (confirmAnalyze sample_platform
        (constant_network (Resolves (json_response 200 shop_duplicate)) (Rejects (NonError JNull)))
        (snd (analyze sample_platform
           (constant_network (Resolves (json_response 200 shop_duplicate)) (Rejects (NonError JNull))) [] idle)))
     = []"
proof -
  have a: "analyze sample_platform
        (constant_network (Resolves (json_response 200 shop_duplicate)) (Rejects (NonError JNull))) [] idle
     = (None, idle\<lparr>state := initial_state\<lparr>duplicate := shop_duplicate, pendingUrl := Some []\<rparr>\<rparr>)"
    by (simp add: analyze_def extract_domain_def replace_scheme_def match_scheme_def startsWith_def trim_def
        sample_platform_def ascii_toLowerCase_def checkDuplicate_def constant_network_def
        json_response_def ok_def shop_duplicate_def idle_def)
  show ?thesis
    unfolding a by (simp add: confirmAnalyze_def idle_def)
qed

theorem failed_response_witness:
  "\<not> ok (json_response 500 (JObj [(js ''detail'', JStr (js ''boom''))]))
   \<and> pipeline_fetch (constant_network (Rejects (NonError JNull))
         (Resolves (json_response 500 (JObj [(js ''detail'', JStr (js ''boom''))])))) (js ''https://x.com'')
       = Resolves (json_response 500 (JObj [(js ''detail'', JStr (js ''boom''))]))
   \<and> state (runPipeline sample_platform
         (constant_network (Rejects (NonError JNull))
            (Resolves (json_response 500 (JObj [(js ''detail'', JStr (js ''boom''))]))))
         (js ''https://x.com'') idle)
       = initial_state\<lparr>error := JStr (js ''boom'')\<rparr>"
proof -
  let ?r = "json_response 500 (JObj [(js ''detail'', JStr (js ''boom''))])"
  let ?net = "constant_network (Rejects (NonError JNull)) (Resolves ?r)"
  have h1: "\<not> ok ?r" by (simp add: ok_def json_response_def)
  have h2: "pipeline_fetch ?net (js ''https://x.com'') = Resolves ?r"
    by (simp add: constant_network_def)
  have h3: "http_status ?r = 500 \<and> json_result ?r = Inr (JObj [(js ''detail'', JStr (js ''boom''))])"
    by (simp add: json_response_def)
  note a = failed_response [OF h1 h2, of _ sample_platform _ idle]
  from a h3 have b: "error (state (runPipeline sample_platform ?net (js ''https://x.com'') idle)) = JStr (js ''boom'')
     \<and> results (state (runPipeline sample_platform ?net (js ''https://x.com'') idle)) = JNull
     \<and> \<not> isLoading (state (runPipeline sample_platform ?net (js ''https://x.com'') idle))"
    by blast
  have c: "steps (state (runPipeline sample_platform ?net (js ''https://x.com'') idle)) = []
     \<and> duplicate (state (runPipeline sample_platform ?net (js ''https://x.com'') idle)) = JNull
     \<and> pendingUrl (state (runPipeline sample_platform ?net (js ''https://x.com'') idle)) = None"
    by (simp add: runPipeline_def Let_def analyzeUrlV2_def constant_network_def json_response_def ok_def
        idle_def initial_state_def split: prod.splits sum.splits)
  have "state (runPipeline sample_platform ?net (js ''https://x.com'') idle) = initial_state\<lparr>error := JStr (js ''boom'')\<rparr>"
    using b c by (cases "state (runPipeline sample_platform ?net (js ''https://x.com'') idle)")
      (simp add: initial_state_def)
  with h1 h2 show ?thesis by blast
qed

lemma decode_ascii:
  assumes "bytes_needed d = 0" and "list_all (\<lambda>b. b \<le> 0x7F) bs"
  shows "snd (decode d bs) = map (\<lambda>b. of_nat (unat b)) bs
         \<and> bytes_needed (fst (decode d bs)) = 0"
  using assms
proof (induction bs arbitrary: d)
  case Nil
  then show ?case by simp
next
  case (Cons b bs)
  then have b: "b \<le> 0x7F" and bs: "list_all (\<lambda>b. b \<le> 0x7F) bs" by simp_all
  have u: "utf8_byte d b = (d, [unat b])"
    using Cons.prems(1) b by (simp add: utf8_byte_def utf8_lead_def)
  have "unat b < 256" using b by (simp add: word_le_nat_alt)
  then have c: "unat b \<noteq> 0xFEFF" and e: "utf16 (unat b) = [of_nat (unat b)]"
    by (simp_all add: utf16_def)
  obtain d2 where s: "serialize d [unat b] = (d2, [of_nat (unat b)])" and n: "bytes_needed d2 = 0"
    using c e Cons.prems(1) by (cases "BOM_seen d") simp_all
  from Cons.IH [OF n bs] u s show ?case
    by (cases "decode d2 bs") (simp del: serialize.simps)
qed

lemma scrape_callbacks:
  "read_loop sample_platform new_TextDecoder [] scrape_stream =
     [OnStep (named_step ''scrape'' ''running''),
      OnStep ((named_step ''scrape'' ''ok'')\<lparr>duration_ms := JNum 0x405E000000000000\<rparr>),
      OnResult (JObj [(js ''domain'', JStr (js ''x.com''))])]"
proof -
  have a: "list_all (\<lambda>b. b \<le> 0x7F) (concat scrape_stream)"
    by (simp add: scrape_stream_def utf8_bytes_def)
  have b: "bytes_needed new_TextDecoder = 0"
    by (simp add: new_TextDecoder_def)
  have "read_loop sample_platform new_TextDecoder [] scrape_stream =
          for_lines sample_platform
            (butlast (js_split 0x0A (map (\<lambda>b. of_nat (unat b)) (concat scrape_stream))))"
    using read_loop_lines [of "[]" sample_platform new_TextDecoder scrape_stream]
      decode_ascii [OF b a] by simp
  also have "\<dots> = [OnStep (named_step ''scrape'' ''running''),
      OnStep ((named_step ''scrape'' ''ok'')\<lparr>duration_ms := JNum 0x405E000000000000\<rparr>),
      OnResult (JObj [(js ''domain'', JStr (js ''x.com''))])]"
    by (simp add: scrape_stream_def sample_eval named_step_def)
  finally show ?thesis .
qed

theorem run_lifecycle_witness:
  "state (runPipeline sample_platform scrape_network (js ''https://x.com'') stale) =
     \<lparr>results = JObj [(js ''domain'', JStr (js ''x.com''))],
      steps = [(named_step ''scrape'' ''ok'')\<lparr>duration_ms := JNum 0x405E000000000000\<rparr>],
      isLoading = False, error = JNull, duplicate = JNull, pendingUrl = None\<rparr>
   \<and> requests (runPipeline sample_platform scrape_network (js ''https://x.com'') stale)
       = [(js ''https://x.com'', initial_state\<lparr>isLoading := True\<rparr>)]
   \<and> state (runPipeline sample_platform
         (constant_network (Rejects (NonError JNull)) (Rejects (Error (js ''Failed to fetch''))))
         (js ''https://x.com'') stale)
       = initial_state\<lparr>error := JStr (js ''Failed to fetch'')\<rparr>
   \<and> snd (analyze sample_platform scrape_network (js ''https://x.com'') stale)
       = runPipeline sample_platform scrape_network (js ''https://x.com'') stale"
proof -
  let ?url = "js ''https://x.com''"
  let ?w = "runPipeline sample_platform scrape_network ?url stale"
  let ?down = "constant_network (Rejects (NonError JNull)) (Rejects (Error (js ''Failed to fetch'')))"
  let ?v = "runPipeline sample_platform ?down ?url stale"
  note a = run_lifecycle [of sample_platform scrape_network ?url stale]
  note c = run_lifecycle [of sample_platform ?down ?url stale]
  have b: "analyzeUrlV2 sample_platform (pipeline_fetch scrape_network ?url)
     = ([OnStep (named_step ''scrape'' ''running''),
      OnStep ((named_step ''scrape'' ''ok'')\<lparr>duration_ms := JNum 0x405E000000000000\<rparr>),
      OnResult (JObj [(js ''domain'', JStr (js ''x.com''))])], None)"
    by (simp add: analyzeUrlV2_def scrape_network_def constant_network_def ok_def scrape_callbacks)
  have d: "analyzeUrlV2 sample_platform (pipeline_fetch ?down ?url) = ([], Some (Error (js ''Failed to fetch'')))"
    by (simp add: analyzeUrlV2_def constant_network_def)
  from a have "\<not> isLoading (state ?w)"
    and "results (state ?w) = last_result JNull (fst (analyzeUrlV2 sample_platform (pipeline_fetch scrape_network ?url)))"
    and "steps (state ?w) = foldl update_steps []
           (step_events (fst (analyzeUrlV2 sample_platform (pipeline_fetch scrape_network ?url))))"
    and "error (state ?w) = (case snd (analyzeUrlV2 sample_platform (pipeline_fetch scrape_network ?url)) of
            None \<Rightarrow> last_error JNull (fst (analyzeUrlV2 sample_platform (pipeline_fetch scrape_network ?url)))
          | Some err \<Rightarrow> JStr (catch_message err))"
    and "duplicate (state ?w) = JNull"
    and "pendingUrl (state ?w) = pendingUrl (state stale)"
    by blast+
  then have 1: "state ?w = \<lparr>results = JObj [(js ''domain'', JStr (js ''x.com''))],
      steps = [(named_step ''scrape'' ''ok'')\<lparr>duration_ms := JNum 0x405E000000000000\<rparr>],
      isLoading = False, error = JNull, duplicate = JNull, pendingUrl = None\<rparr>"
    unfolding b
    by (cases "state ?w") (simp add: stale_def update_steps_def named_step_def)
  from a obtain s where s: "requests ?w = requests stale @ [(?url, s)]"
    "isLoading s" "error s = JNull" "results s = JNull" "steps s = []" "duplicate s = JNull"
    by blast
  from a obtain s' where s': "requests ?w = requests stale @ [(?url, s')]"
    "pendingUrl s' = pendingUrl (state stale)"
    by blast
  from s(1) s'(1) have "s' = s" by simp
  with s s' have "s = initial_state\<lparr>isLoading := True\<rparr>"
    by (cases s) (simp add: initial_state_def stale_def)
  with s(1) have 2: "requests ?w = [(?url, initial_state\<lparr>isLoading := True\<rparr>)]"
    by (simp add: stale_def)
  from c have "\<not> isLoading (state ?v)"
    and "results (state ?v) = last_result JNull (fst (analyzeUrlV2 sample_platform (pipeline_fetch ?down ?url)))"
    and "steps (state ?v) = foldl update_steps []
           (step_events (fst (analyzeUrlV2 sample_platform (pipeline_fetch ?down ?url))))"
    and "error (state ?v) = (case snd (analyzeUrlV2 sample_platform (pipeline_fetch ?down ?url)) of
            None \<Rightarrow> last_error JNull (fst (analyzeUrlV2 sample_platform (pipeline_fetch ?down ?url)))
          | Some err \<Rightarrow> JStr (catch_message err))"
    and "duplicate (state ?v) = JNull"
    and "pendingUrl (state ?v) = pendingUrl (state stale)"
    by blast+
  then have 3: "state ?v = initial_state\<lparr>error := JStr (js ''Failed to fetch'')\<rparr>"
    unfolding d
    by (cases "state ?v") (simp add: stale_def initial_state_def)
  have "requests (snd (analyze sample_platform scrape_network ?url stale)) \<noteq> requests stale"
    by (simp add: analyze_def extract_domain_def replace_scheme_def match_scheme_def startsWith_def trim_def
        is_white_space_def sample_platform_def ascii_toLowerCase_def checkDuplicate_def scrape_network_def
        constant_network_def json_response_def ok_def js_def is_lead_def is_trail_def runPipeline_requests)
  with a have 4: "snd (analyze sample_platform scrape_network ?url stale) = ?w"
    by blast
  from 1 2 3 4 show ?thesis by blast
qed

end
